theory Spec2Isabelle
  imports Complex_Main "HOL-Library.Word"
begin

unbundle bit_operations_syntax

section \<open>Bytes, files and little-endian fields\<close>

type_synonym byte = "8 word"
type_synonym u32 = "32 word"
type_synonym u64 = "64 word"

text \<open>
  A path names a regular file, a block device or something else. What the operating
  system answers for it is part of the input: whether \<open>QFile::open\<close> succeeds, whether
  \<open>fstat\<close> succeeds, the bytes stored there, and whether the \<open>BLKGETSIZE64\<close> ioctl of a
  block device succeeds (it then reports the number of bytes stored).
\<close>

datatype file_mode = S_IFREG | S_IFBLK | S_IFOTHER

record file_obj =
  openable :: bool
  fstatOk :: bool
  st_mode :: file_mode
  content :: "byte list"
  ioctlOk :: bool

text \<open>
  \<open>qFromLittleEndian\<close> and \<open>le32toh\<close> applied to a field of the packed header that
  \<open>file.read\<close> filled: the value of the field's bytes, least significant byte first.
\<close>

definition le_nat :: "byte list \<Rightarrow> nat" where
  "le_nat bs = foldr (\<lambda>b acc. unat b + 256 * acc) bs 0"

definition le32 :: "byte list \<Rightarrow> nat \<Rightarrow> u32" where
  "le32 bs off = of_nat (le_nat (take 4 (drop off bs)))"

definition le64 :: "byte list \<Rightarrow> nat \<Rightarrow> u64" where
  "le64 bs off = of_nat (le_nat (take 8 (drop off bs)))"

section \<open>imagereader.cpp\<close>

text \<open>
  \<open>sizeof(struct squashfsHeader)\<close>: five 32-bit, six 16-bit and two 64-bit packed fields;
  \<open>bytes_used\<close> is the last one, at offset 40.
  \<open>sizeof(struct androidBootHeader)\<close>: eleven packed 32-bit fields.
\<close>

definition sizeof_squashfsHeader :: nat where
  "sizeof_squashfsHeader = 48"

definition sizeof_androidBootHeader :: nat where
  "sizeof_androidBootHeader = 44"

text \<open>
  Modelled from the spec: the value of \<open>SQUASHFS_MAGIC\<close>, a macro of the system header
  \<open>linux/magic.h\<close>; the specification gives \<open>s_magic == 0x73717368\<close>.
\<close>

definition SQUASHFS_MAGIC :: u32 where
  "SQUASHFS_MAGIC = 0x73717368"

definition ANDROID_BOOTIMG_MAGIC_1 :: u32 where
  "ANDROID_BOOTIMG_MAGIC_1 = 0x52444e41"

definition ANDROID_BOOTIMG_MAGIC_2 :: u32 where
  "ANDROID_BOOTIMG_MAGIC_2 = 0x2144494f"

text \<open>
  \<open>static inline size_t ALIGN_TO(size_t l, size_t ali)\<close>, with \<open>size_t\<close> the 64-bit
  unsigned type of the LP64 targets the daemon is built for: the sum wraps modulo \<open>2^64\<close>.
\<close>

definition ALIGN_TO :: "u64 \<Rightarrow> u64 \<Rightarrow> u64" where
  "ALIGN_TO l ali = (l + ali - 1) AND NOT (ali - 1)"

text \<open>\<open>enum ImageReader::ImageType\<close>, with the two enumerators the code uses.\<close>

datatype ImageType = SquashFsType | AndroidBootType

text \<open>
  Modelled from the spec: the members of \<open>class ImageReader\<close>, which \<open>imagereader.h\<close>
  declares. The code names \<open>type\<close>, \<open>file\<close>, \<open>mappedBuffer\<close> and \<open>imageSize\<close>; the
  specification's \<open>ImageView\<close> carries the path, the kind, the mapping and \<open>image_size\<close>,
  the header-derived length. \<open>imageSize\<close> is taken to be a \<open>size_t\<close>, the type
  \<open>ALIGN_TO\<close> returns and \<open>mmap\<close> receives. The constructor leaves it unset; nothing
  reads it before \<open>open\<close> has stored a value, and the model starts it at 0.
\<close>

record ImageReader =
  rtype :: ImageType
  rfile :: file_obj
  isOpen :: bool
  mappedBuffer :: bool
  imageSize :: u64

definition ImageReader_new :: "ImageType \<Rightarrow> file_obj \<Rightarrow> ImageReader" where
  "ImageReader_new t f =
     \<lparr>rtype = t, rfile = f, isOpen = False, mappedBuffer = False, imageSize = 0\<rparr>"

text \<open>\<open>file.read((char *) &hdr, sizeof(hdr))\<close> returns the number of bytes it could read.\<close>

definition file_read_count :: "file_obj \<Rightarrow> nat \<Rightarrow> nat" where
  "file_read_count f n = min n (length (content f))"

text \<open>
  The second half of \<open>ImageReader::open\<close>: the length of what is behind the file, and the
  comparison with the image size derived from the header.
\<close>

definition fileSize_of :: "file_obj \<Rightarrow> nat option" where
  "fileSize_of f =
     (case st_mode f of
        S_IFREG \<Rightarrow> Some (length (content f))
      | S_IFBLK \<Rightarrow> Some (if ioctlOk f then length (content f) else 0)
      | S_IFOTHER \<Rightarrow> None)"

definition open_check_size :: "ImageReader \<Rightarrow> bool \<times> ImageReader" where
  "open_check_size r =
     (case fileSize_of (rfile r) of
        None \<Rightarrow> (False, r)
      | Some fileSize \<Rightarrow>
          if fileSize < unat (imageSize r) then (False, r) else (True, r))"

text \<open>
  \<open>ImageReader::open\<close>. Every \<open>return false\<close> of the source is a branch; the reader is
  returned as the call leaves it. The \<open>default:\<close> case of the \<open>switch\<close> cannot be reached
  with the two enumerators.
\<close>

definition ImageReader_open :: "ImageReader \<Rightarrow> bool \<times> ImageReader" where
  "ImageReader_open r0 =
     (if \<not> openable (rfile r0) then (False, r0)
      else let r = r0\<lparr>isOpen := True\<rparr>; bs = content (rfile r) in
        if \<not> fstatOk (rfile r) then (False, r)
        else case rtype r of
          SquashFsType \<Rightarrow>
            if file_read_count (rfile r) sizeof_squashfsHeader \<noteq> sizeof_squashfsHeader
              then (False, r)
            else if le32 bs 0 \<noteq> SQUASHFS_MAGIC then (False, r)
            else open_check_size (r\<lparr>imageSize := ALIGN_TO (le64 bs 40) 4096\<rparr>)
        | AndroidBootType \<Rightarrow>
            if file_read_count (rfile r) sizeof_androidBootHeader \<noteq> sizeof_androidBootHeader
              then (False, r)
            else if le32 bs 0 \<noteq> ANDROID_BOOTIMG_MAGIC_1 \<or> le32 bs 4 \<noteq> ANDROID_BOOTIMG_MAGIC_2
              then (False, r)
            else let pagesize = ucast (le32 bs 36) :: u64 in
              open_check_size (r\<lparr>imageSize :=
                  ALIGN_TO 608 pagesize
                + ALIGN_TO (ucast (le32 bs 8)) pagesize
                + ALIGN_TO (ucast (le32 bs 16)) pagesize
                + ALIGN_TO (ucast (le32 bs 24)) pagesize
                + ALIGN_TO (ucast (le32 bs 40)) pagesize\<rparr>))"

text \<open>
  \<open>ImageReader::map\<close>: \<open>NULL\<close> when the file is not open, else the mapping of the first
  \<open>imageSize\<close> bytes of the file. (\<open>mmap\<close> reports failure as \<open>MAP_FAILED\<close>, which is not
  \<open>NULL\<close>; the model covers the runs in which the mapping exists.)
\<close>

definition ImageReader_map :: "ImageReader \<Rightarrow> byte list option \<times> ImageReader" where
  "ImageReader_map r =
     (if \<not> isOpen r then (None, r)
      else (Some (take (unat (imageSize r)) (content (rfile r))), r\<lparr>mappedBuffer := True\<rparr>))"

definition ImageReader_size :: "ImageReader \<Rightarrow> nat" where
  "ImageReader_size r = unat (imageSize r)"

definition ImageReader_close :: "ImageReader \<Rightarrow> ImageReader" where
  "ImageReader_close r =
     (if \<not> isOpen r then r else r\<lparr>mappedBuffer := False, isOpen := False\<rparr>)"

section \<open>updater.cpp: the worker thread\<close>

subsection \<open>Progress values\<close>

text \<open>
  The \<open>float\<close> values of the progress computation. A finite value is kept as the exact
  rational (rounding to 24 bits of mantissa is monotone and leaves 0, 1/4, 1/2, 3/4 and 1
  fixed); the three special values are what IEEE 754 division produces for a zero divisor.
\<close>

datatype cfloat = Fin rat | PInf | NInf | NaN

text \<open>\<open>(float) a / (float) b\<close> for two \<open>qint64\<close> values.\<close>

definition fdiv :: "int \<Rightarrow> int \<Rightarrow> cfloat" where
  "fdiv a b =
     (if b = 0 then (if a = 0 then NaN else if 0 < a then PInf else NInf)
      else Fin (of_int a / of_int b))"

text \<open>\<open>v < 0.0f\<close> and \<open>v > 1.0f\<close>: every comparison with a NaN is false.\<close>

fun f_lt0 :: "cfloat \<Rightarrow> bool" where
  "f_lt0 (Fin r) = (r < 0)"
| "f_lt0 NInf = True"
| "f_lt0 PInf = False"
| "f_lt0 NaN = False"

fun f_gt1 :: "cfloat \<Rightarrow> bool" where
  "f_gt1 (Fin r) = (1 < r)"
| "f_gt1 PInf = True"
| "f_gt1 NInf = False"
| "f_gt1 NaN = False"

text \<open>\<open>p += v/4\<close> for a finite \<open>p\<close>.\<close>

fun f_add_quarter :: "rat \<Rightarrow> cfloat \<Rightarrow> cfloat" where
  "f_add_quarter p (Fin r) = Fin (p + r / 4)"
| "f_add_quarter p PInf = PInf"
| "f_add_quarter p NInf = NInf"
| "f_add_quarter p NaN = NaN"

text \<open>The two values of \<open>UpdateThread::state\<close> that the code assigns and switches on.\<close>

datatype UpdateThreadState = DownloadBootimgState | DownloadRootfsState

text \<open>
  \<open>UpdateThread::emitProgress\<close>: the list of \<open>progress\<close> signals the call emits, none
  or one.
\<close>

definition emitProgress :: "UpdateThreadState \<Rightarrow> bool \<Rightarrow> cfloat \<Rightarrow> cfloat list" where
  "emitProgress st isDownload v =
     (if f_lt0 v \<or> f_gt1 v then []
      else let p = 0;
               p = (case st of DownloadBootimgState \<Rightarrow> p
                             | DownloadRootfsState \<Rightarrow> p + 1 / 2);
               p = (if \<not> isDownload then p + 1 / 4 else p)
           in [f_add_quarter p v])"

subsection \<open>What the thread does that can be observed\<close>

datatype request_kind = ManifestRequest | SignatureRequest | DeltaRequest | FullRequest

text \<open>
  The signals of \<open>UpdateThread\<close> and the requests it hands to its
  \<open>QNetworkAccessManager\<close>, in the order they happen.
\<close>

datatype thread_event =
    Get request_kind string
  | progress cfloat
  | failed
  | succeeded

subsection \<open>The transfers\<close>

text \<open>
  The signals of a \<open>QNetworkReply\<close> that reach the lambdas connected in
  \<open>downloadDeltaImage\<close> and \<open>downloadFullImage\<close> while \<open>loop.exec()\<close> runs, and the
  single-shot timer. \<open>ReadyRead replyError decodeOk\<close> carries what the handler finds:
  whether \<open>reply->error()\<close> is set and, for a delta, whether
  \<open>DecodeChunkToInterface\<close> accepts the chunk. Which signals arrive before
  \<open>loop.exec()\<close> returns is decided by Qt and the network, so it is an input:
  \<open>loop.quit()\<close> only asks the loop to return.
\<close>

datatype net_signal =
    ReadyRead bool bool
  | ErrorSignal
  | Finished
  | DownloadProgress int int
  | Timeout

record transfer_state =
  ret :: bool
  error :: bool
  emitted :: "cfloat list"

definition transfer_init :: transfer_state where
  "transfer_init = \<lparr>ret = False, error = False, emitted = []\<rparr>"

text \<open>The four lambdas of \<open>downloadDeltaImage\<close>, and the timer.\<close>

fun delta_handler :: "UpdateThreadState \<Rightarrow> net_signal \<Rightarrow> transfer_state \<Rightarrow> transfer_state" where
  "delta_handler st (ReadyRead replyError decodeOk) s =
     (if replyError then s\<lparr>error := True\<rparr>
      else if \<not> decodeOk then s\<lparr>error := True\<rparr>
      else s)"
| "delta_handler st ErrorSignal s = s\<lparr>error := True\<rparr>"
| "delta_handler st Finished s = s\<lparr>ret := True\<rparr>"
| "delta_handler st (DownloadProgress bytesReceived bytesTotal) s =
     s\<lparr>emitted := emitted s @ emitProgress st True (fdiv bytesReceived bytesTotal)\<rparr>"
| "delta_handler st Timeout s = s"

text \<open>
  The four lambdas of \<open>downloadFullImage\<close>, which has no \<open>error\<close> variable: the field
  stays as it is.
\<close>

fun full_handler :: "UpdateThreadState \<Rightarrow> net_signal \<Rightarrow> transfer_state \<Rightarrow> transfer_state" where
  "full_handler st (ReadyRead replyError decodeOk) s = s"
| "full_handler st ErrorSignal s = s"
| "full_handler st Finished s = s\<lparr>ret := True\<rparr>"
| "full_handler st (DownloadProgress bytesReceived bytesTotal) s =
     s\<lparr>emitted := emitted s @ emitProgress st True (fdiv bytesReceived bytesTotal)\<rparr>"
| "full_handler st Timeout s = s"

definition run_loop ::
  "(net_signal \<Rightarrow> transfer_state \<Rightarrow> transfer_state) \<Rightarrow> net_signal list \<Rightarrow> transfer_state" where
  "run_loop handler sigs = fold handler sigs transfer_init"

text \<open>
  \<open>UpdateThread::downloadDeltaImage\<close>. The request is issued before the output is
  opened. \<open>outputOpens\<close> is the result of \<open>output.open(outputPath)\<close>.
\<close>

definition downloadDeltaImage ::
  "UpdateThreadState \<Rightarrow> string \<Rightarrow> ImageReader \<Rightarrow> bool \<Rightarrow> net_signal list
     \<Rightarrow> bool \<times> thread_event list" where
  "downloadDeltaImage st deltaUrl dict outputOpens sigs =
     (if \<not> outputOpens then (False, [Get DeltaRequest deltaUrl])
      else case fst (ImageReader_map dict) of
        None \<Rightarrow> (False, [Get DeltaRequest deltaUrl])
      | Some buf \<Rightarrow>
          let s = run_loop (delta_handler st) sigs
          in (ret s \<and> \<not> error s, Get DeltaRequest deltaUrl # map progress (emitted s)))"

text \<open>\<open>UpdateThread::downloadFullImage\<close>.\<close>

definition downloadFullImage ::
  "UpdateThreadState \<Rightarrow> string \<Rightarrow> bool \<Rightarrow> net_signal list \<Rightarrow> bool \<times> thread_event list" where
  "downloadFullImage st url outputOpens sigs =
     (if \<not> outputOpens then (False, [Get FullRequest url])
      else let s = run_loop (full_handler st) sigs
           in (ret s, Get FullRequest url # map progress (emitted s)))"

subsection \<open>Verification\<close>

text \<open>\<open>QByteArray::toHex\<close>: two lower-case hexadecimal digits for each byte.\<close>

definition hexdigit :: "nat \<Rightarrow> char" where
  "hexdigit n = ''0123456789abcdef'' ! (n mod 16)"

definition toHex :: "byte list \<Rightarrow> string" where
  "toHex bs = concat (map (\<lambda>b. [hexdigit (unat b div 16), hexdigit (unat b mod 16)]) bs)"

text \<open>
  The \<open>while\<close> loop of \<open>verifyImage\<close>: \<open>acc\<close> is what \<open>hash.addData\<close> has received so
  far, \<open>out\<close> the progress signals emitted so far, and \<open>drop pos buf\<close> the pointer
  \<open>buf\<close> after it has been advanced \<open>pos\<close> bytes.
\<close>

function hash_loop ::
  "UpdateThreadState \<Rightarrow> nat \<Rightarrow> byte list \<Rightarrow> nat \<Rightarrow> byte list \<Rightarrow> cfloat list
     \<Rightarrow> byte list \<times> cfloat list" where
  "hash_loop st sz buf pos acc out =
     (if pos < sz then
        let l = min (1024 * 1024) (sz - pos)
        in hash_loop st sz buf (pos + l) (acc @ take l (drop pos buf))
             (out @ emitProgress st False (fdiv (int (pos + l)) (int sz)))
      else (acc, out))"
  by pat_completeness auto
termination
  by (relation "measure (\<lambda>(st, sz, buf, pos, acc, out). sz - pos)") auto

declare hash_loop.simps [simp del]

text \<open>
  \<open>UpdateThread::verifyImage\<close>. \<open>QCryptographicHash(Sha512)\<close> belongs to Qt: the digest
  function is the parameter \<open>hashfn\<close>, applied to everything \<open>addData\<close> received.
  \<open>path\<close> is what is stored at the path when the call runs. The comparison is
  \<open>operator==\<close> of a \<open>QByteArray\<close> and a \<open>QString\<close>.
\<close>

definition verifyImage ::
  "(byte list \<Rightarrow> byte list) \<Rightarrow> UpdateThreadState \<Rightarrow> ImageType \<Rightarrow> file_obj \<Rightarrow> string
     \<Rightarrow> bool \<times> cfloat list" where
  "verifyImage hashfn st type path sha512 =
     (case ImageReader_open (ImageReader_new type path) of
        (False, img) \<Rightarrow> (False, [])
      | (True, img) \<Rightarrow>
          (case ImageReader_map img of
             (None, img') \<Rightarrow> (False, [])
           | (Some buf, img') \<Rightarrow>
               let (dat, out) = hash_loop st (ImageReader_size img') buf 0 [] []
               in (toHex (hashfn dat) = sha512, out)))"

subsection \<open>One image kind, and the whole run\<close>

text \<open>
  Everything outside the program that one call of \<open>downloadAndVerify\<close> meets: the file
  at the dictionary path, whether the output opens for each transfer, the signals of each
  transfer, and what is stored at the output path at each of the two verifications
  (written there by the decoder or by \<open>output.append\<close>, or found there).
\<close>

record kind_env =
  dictionary :: file_obj
  deltaOutputOpens :: bool
  deltaSignals :: "net_signal list"
  outputAtFirstVerify :: file_obj
  fullOutputOpens :: bool
  fullSignals :: "net_signal list"
  outputAtSecondVerify :: file_obj

text \<open>\<open>UpdateThread::downloadAndVerify\<close> from the first \<open>verifyImage\<close> on.\<close>

definition verifyOrFull ::
  "(byte list \<Rightarrow> byte list) \<Rightarrow> UpdateThreadState \<Rightarrow> ImageType \<Rightarrow> kind_env \<Rightarrow> string \<Rightarrow> string
     \<Rightarrow> bool \<times> thread_event list" where
  "verifyOrFull hashfn st type env fullImageUrl sha512 =
     (let (v1, p1) = verifyImage hashfn st type (outputAtFirstVerify env) sha512 in
      if v1 then (True, map progress p1)
      else let (f, e) = downloadFullImage st fullImageUrl (fullOutputOpens env) (fullSignals env) in
        if \<not> f then (False, map progress p1 @ e)
        else let (v2, p2) = verifyImage hashfn st type (outputAtSecondVerify env) sha512 in
          if v2 then (True, map progress p1 @ e @ map progress p2)
          else (False, map progress p1 @ e @ map progress p2))"

text \<open>
  \<open>UpdateThread::downloadAndVerify\<close>. (\<open>dict.close()\<close> after a delta transfer that
  returned \<open>true\<close> releases the mapping; nothing later reads the dictionary.)
\<close>

definition downloadAndVerify ::
  "(byte list \<Rightarrow> byte list) \<Rightarrow> UpdateThreadState \<Rightarrow> ImageType \<Rightarrow> kind_env
     \<Rightarrow> string \<Rightarrow> string \<Rightarrow> string \<Rightarrow> bool \<times> thread_event list" where
  "downloadAndVerify hashfn st type env fullImageUrl deltaImageUrl sha512 =
     (case ImageReader_open (ImageReader_new type (dictionary env)) of
        (True, dict) \<Rightarrow>
          (let (d, e) = downloadDeltaImage st deltaImageUrl dict
                          (deltaOutputOpens env) (deltaSignals env) in
           if \<not> d then (False, e)
           else let (r, e') = verifyOrFull hashfn st type env fullImageUrl sha512
                in (r, e @ e'))
      | (False, dict) \<Rightarrow> verifyOrFull hashfn st type env fullImageUrl sha512)"

text \<open>
  Modelled from the spec: \<open>struct AvailableUpdate\<close>, which \<open>updater.h\<close> declares. The code
  assigns the seven fields below; the specification gives \<open>version: u64\<close> and strings for
  the URLs and the digests.
\<close>

record AvailableUpdate =
  version :: u64
  rootfsUrl :: string
  rootfsSha512 :: string
  bootimgUrl :: string
  bootimgSha512 :: string
  rootfsDeltaUrl :: string
  bootimgDeltaUrl :: string

record run_env =
  bootEnv :: kind_env
  rootfsEnv :: kind_env

text \<open>\<open>UpdateThread::run\<close>.\<close>

definition run :: "(byte list \<Rightarrow> byte list) \<Rightarrow> AvailableUpdate \<Rightarrow> run_env \<Rightarrow> thread_event list" where
  "run hashfn update env =
     (let (r1, e1) = downloadAndVerify hashfn DownloadBootimgState AndroidBootType (bootEnv env)
                       (bootimgUrl update) (bootimgDeltaUrl update) (bootimgSha512 update) in
      if \<not> r1 then e1 @ [failed]
      else let (r2, e2) = downloadAndVerify hashfn DownloadRootfsState SquashFsType (rootfsEnv env)
                            (rootfsUrl update) (rootfsDeltaUrl update) (rootfsSha512 update) in
        if \<not> r2 then e1 @ e2 @ [failed]
        else e1 @ e2 @ [succeeded])"

section \<open>updater.cpp: the controller\<close>

text \<open>The values of \<open>Updater::state\<close> that the code assigns and switches on.\<close>

datatype UpdaterState =
  StateUndefined | StateDownloadJson | StateDownloadSignature | StateVerifySignature

datatype MachineModel = DT410C_EVALBOARD | NEPOS1 | UNKNOWN_MODEL

text \<open>
  Modelled from the spec: the \<open>Machine\<close> collaborator, which \<open>machine.h\<close> declares, as far
  as \<open>Updater\<close> reads it: \<open>getOsVersion()\<close> (the specification's \<open>os_version() -> u64\<close>)
  and \<open>getModel()\<close>.
\<close>

record Machine =
  osVersion :: u64
  model :: MachineModel

text \<open>
  The signals \<open>Updater\<close> emits, the call of \<open>machine->setAltBootConfig()\<close>, and the
  requests handed to a \<open>QNetworkAccessManager\<close>, in the order they happen.
\<close>

datatype event =
    checkFailed string
  | updateAvailable string
  | alreadyUpToDate
  | updateProgress cfloat
  | updateSucceeded
  | updateFailed
  | setAltBootConfig
  | NetworkGet request_kind string

record Updater =
  machine :: Machine
  state :: UpdaterState
  availableUpdate :: AvailableUpdate
  pendingReply :: "string option"

text \<open>\<open>memset(&availableUpdate, 0, sizeof(availableUpdate))\<close>.\<close>

definition zeroed :: AvailableUpdate where
  "zeroed = \<lparr>version = 0, rootfsUrl = [], rootfsSha512 = [], bootimgUrl = [],
             bootimgSha512 = [], rootfsDeltaUrl = [], bootimgDeltaUrl = []\<rparr>"

text \<open>
  \<open>QString::number\<close> of an unsigned value: its decimal digits.
\<close>

definition digit_char :: "nat \<Rightarrow> char" where
  "digit_char n = ''0123456789'' ! (n mod 10)"

function QString_number :: "nat \<Rightarrow> string" where
  "QString_number n =
     (if n < 10 then [digit_char n] else QString_number (n div 10) @ [digit_char (n mod 10)])"
  by pat_completeness auto
termination
  by (relation "measure id") auto

declare QString_number.simps [simp del]

text \<open>
  \<open>QString::toULong\<close> in base 10, for the strings the model covers: a non-empty string
  of decimal digits gives its value when that fits 64 bits; every other string counts as
  a failed conversion, which Qt reports as 0.
\<close>

definition isDigit :: "char \<Rightarrow> bool" where
  "isDigit c = (48 \<le> (of_char c :: nat) \<and> (of_char c :: nat) \<le> 57)"

definition toULong :: "string \<Rightarrow> u64" where
  "toULong s =
     (if s = [] \<or> \<not> list_all isDigit s then 0
      else let n = foldl (\<lambda>a c. 10 * a + (of_char c - 48)) (0::nat) s
           in if n < 2 ^ 64 then of_nat n else 0)"

text \<open>
  \<open>QJsonDocument::fromJson\<close> belongs to Qt: its result is an input, either the parse
  error with its \<open>errorString()\<close> or the object, given by its members whose value is a
  string. \<open>json[key].toString()\<close> is empty for every other key.
\<close>

datatype json_doc = JsonParseError string | JsonObject "(string \<times> string) list"

definition json_toString :: "(string \<times> string) list \<Rightarrow> string \<Rightarrow> string" where
  "json_toString json key = (case map_of json key of None \<Rightarrow> [] | Some v \<Rightarrow> v)"

text \<open>\<open>Updater::verifySignature\<close>, from how the \<open>gpg\<close> process ended.\<close>

datatype gpg_outcome = NotFinished | ExitCode int

definition verifySignature :: "gpg_outcome \<Rightarrow> bool" where
  "verifySignature g = (case g of NotFinished \<Rightarrow> False | ExitCode c \<Rightarrow> c = 0)"

text \<open>
  What one call of \<open>Updater::downloadFinished\<close> meets: the parsed body of the reply,
  whether the file under \<open>/tmp\<close> opens for writing, and how \<open>gpg\<close> ends.
\<close>

record reply_env =
  fromJson :: json_doc
  tmpFileOpens :: bool
  gpg :: gpg_outcome

text \<open>\<open>Updater::downloadFinished\<close>: the updater after the call and what the call emitted.\<close>

definition downloadFinished :: "Updater \<Rightarrow> reply_env \<Rightarrow> Updater \<times> event list" where
  "downloadFinished u r =
     (case state u of
        StateDownloadJson \<Rightarrow>
          if \<not> tmpFileOpens r then (u, [])
          else (case fromJson r of
             JsonParseError errorString \<Rightarrow>
               (u, [checkFailed (''Unable to parse Json content from update server:'' @ errorString)])
           | JsonObject json \<Rightarrow>
               let version = QString_number (unat (osVersion (machine u)));
                   a = \<lparr>version = toULong (json_toString json ''build_id''),
                        rootfsUrl = json_toString json ''rootfs'',
                        rootfsSha512 = json_toString json ''rootfs_sha512'',
                        bootimgUrl = json_toString json ''bootimg'',
                        bootimgSha512 = json_toString json ''bootimg_sha512'',
                        rootfsDeltaUrl = json_toString json ''rootfs_deltas'' @ version @ ''.vcdiff'',
                        bootimgDeltaUrl = json_toString json ''bootimg_deltas'' @ version @ ''.vcdiff''\<rparr>;
                   url = json_toString json ''signature''
               in (u\<lparr>availableUpdate := a, state := StateDownloadSignature, pendingReply := Some url\<rparr>,
                   [NetworkGet SignatureRequest url]))
      | StateDownloadSignature \<Rightarrow>
          if \<not> tmpFileOpens r then (u, [])
          else let u' = u\<lparr>state := StateVerifySignature\<rparr> in
            if \<not> verifySignature (gpg r) then (u'\<lparr>availableUpdate := zeroed\<rparr>, [])
            else if version (availableUpdate u') > osVersion (machine u')
              then (u', [updateAvailable (QString_number (unat (version (availableUpdate u'))))])
              else (u', [alreadyUpToDate])
      | _ \<Rightarrow> (u, []))"

text \<open>
  \<open>Updater::check\<close>: the URL of the manifest, the new state and the request. (The
  identity headers of the request and the abort of an earlier pending reply are left
  out.)
\<close>

definition check :: "Updater \<Rightarrow> string \<Rightarrow> Updater \<times> event list" where
  "check u updateChannel =
     (let model = (case model (machine u) of
                     DT410C_EVALBOARD \<Rightarrow> ''nepos1''
                   | NEPOS1 \<Rightarrow> ''nepos1''
                   | _ \<Rightarrow> ''unknown'');
          url = ''https://os.nepos.io/updates/'' @ model @ ''/'' @ updateChannel @ ''.json''
      in (u\<lparr>state := StateDownloadJson, pendingReply := Some url\<rparr>,
          [NetworkGet ManifestRequest url]))"

text \<open>
  One whole check: \<open>check\<close>, then \<open>downloadFinished\<close> when the manifest reply finishes,
  then, if that call asked for the signature, \<open>downloadFinished\<close> when the signature reply
  finishes.
\<close>

definition run_check :: "Updater \<Rightarrow> string \<Rightarrow> reply_env \<Rightarrow> reply_env \<Rightarrow> Updater \<times> event list" where
  "run_check u updateChannel manifestReply signatureReply =
     (let (u1, e1) = check u updateChannel;
          (u2, e2) = downloadFinished u1 manifestReply
      in if state u2 = StateDownloadSignature
         then let (u3, e3) = downloadFinished u2 signatureReply in (u3, e1 @ e2 @ e3)
         else (u2, e1 @ e2))"

text \<open>
  The three lambdas \<open>Updater::install\<close> connects to the signals of the thread. The
  requests of the thread are carried over as they are.
\<close>

fun relay :: "thread_event \<Rightarrow> event list" where
  "relay succeeded = [setAltBootConfig, updateSucceeded]"
| "relay failed = [updateFailed]"
| "relay (progress v) = [updateProgress v]"
| "relay (Get k url) = [NetworkGet k url]"

text \<open>
  \<open>Updater::install\<close>, with the thread it starts run to its end: the signals of the
  thread reach the three lambdas in the order the thread emits them.
\<close>

definition install :: "(byte list \<Rightarrow> byte list) \<Rightarrow> Updater \<Rightarrow> run_env \<Rightarrow> event list" where
  "install hashfn u env =
     (if version (availableUpdate u) = 0 then [updateFailed]
      else concat (map relay (run hashfn (availableUpdate u) env)))"

subsection \<open>Reading a sequence of events\<close>




text \<open>The full-image requests among the events of the thread.\<close>

fun full_requests :: "thread_event list \<Rightarrow> string list" where
  "full_requests [] = []"
| "full_requests (Get FullRequest url # es) = url # full_requests es"
| "full_requests (e # es) = full_requests es"

text \<open>
  A signal of the delta transfer that reports a transport error (\<open>error\<close>, or a
  \<open>readyRead\<close> that finds \<open>reply->error()\<close> set) or a decoder error (a \<open>readyRead\<close>
  whose chunk the decoder refuses).
\<close>

fun delta_failure :: "net_signal \<Rightarrow> bool" where
  "delta_failure ErrorSignal = True"
| "delta_failure (ReadyRead replyError decodeOk) = (replyError \<or> \<not> decodeOk)"
| "delta_failure s = False"


text \<open>
  The lower end of the quarter of the progress scale that belongs to a state of the
  thread and to the download or the verification.
\<close>

definition quarter :: "UpdateThreadState \<Rightarrow> bool \<Rightarrow> rat" where
  "quarter st isDownload =
     (case st of DownloadBootimgState \<Rightarrow> 0 | DownloadRootfsState \<Rightarrow> 1 / 2)
     + (if isDownload then 0 else 1 / 4)"




section \<open>updater.cpp: UpdateWriter\<close>

text \<open>
  The \<open>QFile\<close> an \<open>UpdateWriter\<close> wraps, opened write-only and unbuffered: the write
  position, the bytes behind the path, and whether the path is a block device, whose
  length is fixed.
\<close>

record QFile =
  opened :: bool
  pos :: nat
  bytes :: "byte list"
  blockDevice :: bool

text \<open>
  \<open>QFile::write\<close> at the current position. A regular file grows as needed, with zeros
  in any gap; a block device takes the bytes that fit before its end.
\<close>

definition QFile_write :: "QFile \<Rightarrow> byte list \<Rightarrow> QFile" where
  "QFile_write f s =
     (if \<not> opened f then f
      else let s' = (if blockDevice f then take (length (bytes f) - pos f) s else s);
               old = bytes f @ replicate (pos f - length (bytes f)) 0
           in f\<lparr>bytes := take (pos f) old @ s' @ drop (pos f + length s') old,
                pos := pos f + length s'\<rparr>)"

text \<open>\<open>QFile::seek\<close>; a negative offset is refused.\<close>

definition QFile_seek :: "QFile \<Rightarrow> int \<Rightarrow> QFile" where
  "QFile_seek f off = (if \<not> opened f \<or> off < 0 then f else f\<lparr>pos := nat off\<rparr>)"

text \<open>
  \<open>QFileDevice::resize(qint64 sz)\<close>: an open file whose position lies beyond \<open>sz\<close> is
  first moved back to \<open>sz\<close>; then the length is set, which fails for a negative size and
  for a block device.
\<close>

definition QFile_resize :: "QFile \<Rightarrow> int \<Rightarrow> QFile" where
  "QFile_resize f sz =
     (let f1 = (if opened f \<and> int (pos f) > sz then QFile_seek f sz else f)
      in if blockDevice f1 \<or> sz < 0 then f1
         else f1\<lparr>bytes := take (nat sz) (bytes f1) @ replicate (nat sz - length (bytes f1)) 0\<rparr>)"

text \<open>
  \<open>UpdateWriter::open\<close>: \<open>QFileDevice::WriteOnly\<close> truncates a regular file.
  \<open>opens\<close> is whether the operating system lets the path be opened.
\<close>

definition UpdateWriter_open :: "byte list \<Rightarrow> bool \<Rightarrow> bool \<Rightarrow> bool \<times> QFile" where
  "UpdateWriter_open stored isBlk opens =
     (opens, \<lparr>opened = opens, pos = 0,
              bytes = (if opens \<and> \<not> isBlk then [] else stored), blockDevice = isBlk\<rparr>)"

text \<open>
  \<open>UpdateWriter::append\<close>, \<open>clear\<close> (\<open>file.reset()\<close> seeks to the start) and
  \<open>push_back\<close>.
\<close>

definition append :: "QFile \<Rightarrow> byte list \<Rightarrow> QFile" where
  "append f s = QFile_write f s"

definition clear :: "QFile \<Rightarrow> QFile" where
  "clear f = QFile_seek f 0"

definition push_back :: "QFile \<Rightarrow> byte \<Rightarrow> QFile" where
  "push_back f c = QFile_write f [c]"

text \<open>
  \<open>UpdateWriter::ReserveAdditionalBytes\<close>: \<open>file.pos() + res_arg\<close> adds a \<open>qint64\<close> and
  a \<open>size_t\<close>, so the sum is taken modulo \<open>2^64\<close> and read as a \<open>qint64\<close> again by
  \<open>resize\<close>.
\<close>

definition ReserveAdditionalBytes :: "QFile \<Rightarrow> u64 \<Rightarrow> QFile" where
  "ReserveAdditionalBytes f res_arg = QFile_resize f (sint (of_nat (pos f) + res_arg))"

text \<open>\<open>UpdateWriter::size\<close>.\<close>

definition size_writer :: "QFile \<Rightarrow> nat" where
  "size_writer f = pos f"

subsection \<open>The rounding the specification describes\<close>

text \<open>
  "Rounded up to the next multiple of \<open>p\<close>", following the words of the specification:
  the least multiple of \<open>p\<close> that is not below \<open>n\<close>, for \<open>p > 0\<close>.
\<close>

definition spec_roundup :: "nat \<Rightarrow> nat \<Rightarrow> nat" where
  "spec_roundup n p = ((n + p - 1) div p) * p"

section \<open>Concrete images\<close>

text \<open>
  A regular file that starts with an Android boot image header: the two magics, the
  given four bytes of \<open>kernel_size\<close> and of \<open>page_size\<close>, every other field zero, and
  the bytes \<open>rest\<close> after the header.
\<close>

definition android_image :: "byte list \<Rightarrow> byte list \<Rightarrow> byte list \<Rightarrow> file_obj" where
  "android_image kernel_size page_size rest =
     \<lparr>openable = True, fstatOk = True, st_mode = S_IFREG,
      content = [0x41, 0x4e, 0x44, 0x52, 0x4f, 0x49, 0x44, 0x21] @ kernel_size
        @ replicate 24 0 @ page_size @ replicate 4 0 @ rest,
      ioctlOk = False\<rparr>"

text \<open>
  A regular file that starts with a SquashFS superblock: the magic, the given eight bytes
  of \<open>bytes_used\<close>, every other field zero, and the bytes \<open>rest\<close> after the superblock.
\<close>

definition squashfs_image :: "byte list \<Rightarrow> byte list \<Rightarrow> file_obj" where
  "squashfs_image bytes_used rest =
     \<lparr>openable = True, fstatOk = True, st_mode = S_IFREG,
      content = [0x68, 0x73, 0x71, 0x73] @ replicate 36 0 @ bytes_used @ rest,
      ioctlOk = False\<rparr>"

text \<open>
  A stand-in for the digest function, to run the model on concrete images: two bytes,
  \<open>0xcf\<close> and the sum of the bytes of the message modulo 256. The theorems hold for
  every digest function; this one only makes a run computable.
\<close>

definition stub_digest :: "byte list \<Rightarrow> byte list" where
  "stub_digest dat = [0xcf, sum_list dat]"

text \<open>
  A SquashFS image of 4096 bytes with \<open>bytes_used = 4096\<close>, the same image followed by
  two more bytes, and an Android boot image of 2048 bytes with \<open>page_size = 2048\<close> and
  every size 0.
\<close>

definition squashfs_4096 :: file_obj where
  "squashfs_4096 = squashfs_image [0, 0x10, 0, 0, 0, 0, 0, 0] (replicate 4048 0)"

definition squashfs_4096_tail :: file_obj where
  "squashfs_4096_tail = squashfs_4096\<lparr>content := content squashfs_4096 @ [0xde, 0xad]\<rparr>"

definition android_2048 :: file_obj where
  "android_2048 = android_image [0, 0, 0, 0] [0, 8, 0, 0] (replicate 2004 0)"

text \<open>
  The same two images with one byte after the header changed, as a transfer that went
  wrong leaves them.
\<close>

definition squashfs_4096_bad :: file_obj where
  "squashfs_4096_bad = squashfs_image [0, 0x10, 0, 0, 0, 0, 0, 0] (1 # replicate 4047 0)"

definition android_2048_bad :: file_obj where
  "android_2048_bad = android_image [0, 0, 0, 0] [0, 8, 0, 0] (1 # replicate 2003 0)"

text \<open>A regular file of 48 zero bytes: no magic.\<close>

definition blank_file :: file_obj where
  "blank_file =
     \<lparr>openable = True, fstatOk = True, st_mode = S_IFREG, content = replicate 48 0,
      ioctlOk = False\<rparr>"

section \<open>Concrete runs\<close>

text \<open>
  An update whose expected digests are those \<open>stub_digest\<close> gives the two images,
  and an updater that holds it.
\<close>

definition example_update :: AvailableUpdate where
  "example_update =
     \<lparr>version = 2, rootfsUrl = ''rootfs.img'', rootfsSha512 = ''cfcf'',
      bootimgUrl = ''boot.img'', bootimgSha512 = ''cf2a'',
      rootfsDeltaUrl = ''rootfs/1.vcdiff'', bootimgDeltaUrl = ''boot/1.vcdiff''\<rparr>"

definition example_updater :: Updater where
  "example_updater =
     \<lparr>machine = \<lparr>osVersion = 1, model = NEPOS1\<rparr>, state = StateVerifySignature,
      availableUpdate = example_update, pendingReply = None\<rparr>"

text \<open>The delta transfer works and its output verifies.\<close>

definition boot_delta_ok :: kind_env where
  "boot_delta_ok =
     \<lparr>dictionary = android_2048, deltaOutputOpens = True,
      deltaSignals = [ReadyRead False True, DownloadProgress 512 1024,
                      ReadyRead False True, DownloadProgress 1024 1024, Finished],
      outputAtFirstVerify = android_2048, fullOutputOpens = True, fullSignals = [],
      outputAtSecondVerify = android_2048\<rparr>"

definition rootfs_delta_ok :: kind_env where
  "rootfs_delta_ok =
     \<lparr>dictionary = squashfs_4096, deltaOutputOpens = True,
      deltaSignals = [ReadyRead False True, DownloadProgress 512 1024,
                      ReadyRead False True, DownloadProgress 1024 1024, Finished],
      outputAtFirstVerify = squashfs_4096, fullOutputOpens = True, fullSignals = [],
      outputAtSecondVerify = squashfs_4096\<rparr>"

text \<open>
  The delta transfer of the boot image meets a transport error; a full download would
  deliver the image.
\<close>

definition boot_delta_transport_error :: kind_env where
  "boot_delta_transport_error =
     \<lparr>dictionary = android_2048, deltaOutputOpens = True,
      deltaSignals = [ErrorSignal, Finished],
      outputAtFirstVerify = android_2048_bad, fullOutputOpens = True,
      fullSignals = [ReadyRead False True, DownloadProgress 2048 2048, Finished],
      outputAtSecondVerify = android_2048\<rparr>"

text \<open>The same, with a chunk that the decoder refuses instead of the transport error.\<close>

definition boot_delta_decoder_error :: kind_env where
  "boot_delta_decoder_error =
     boot_delta_transport_error\<lparr>deltaSignals :=
       [ReadyRead False True, DownloadProgress 512 1024, ReadyRead False False, Finished]\<rparr>"

text \<open>
  The delta transfer of the boot image ends without error, but what it wrote does not
  verify; the full download delivers the image.
\<close>

definition boot_delta_mismatch :: kind_env where
  "boot_delta_mismatch =
     \<lparr>dictionary = android_2048, deltaOutputOpens = True,
      deltaSignals = [ReadyRead False True, DownloadProgress 1024 1024, Finished],
      outputAtFirstVerify = android_2048_bad, fullOutputOpens = True,
      fullSignals = [ReadyRead False True, DownloadProgress 1024 2048,
                     ReadyRead False True, DownloadProgress 2048 2048, Finished],
      outputAtSecondVerify = android_2048\<rparr>"

text \<open>
  For the root file system neither the delta transfer nor the full download leaves an
  image that verifies.
\<close>

definition rootfs_both_mismatch :: kind_env where
  "rootfs_both_mismatch =
     \<lparr>dictionary = squashfs_4096, deltaOutputOpens = True,
      deltaSignals = [ReadyRead False True, DownloadProgress 1024 1024, Finished],
      outputAtFirstVerify = squashfs_4096_bad, fullOutputOpens = True,
      fullSignals = [ReadyRead False True, DownloadProgress 4096 4096, Finished],
      outputAtSecondVerify = squashfs_4096_bad\<rparr>"

definition run_both_ok :: run_env where
  "run_both_ok = \<lparr>bootEnv = boot_delta_ok, rootfsEnv = rootfs_delta_ok\<rparr>"

definition run_rootfs_fails :: run_env where
  "run_rootfs_fails = \<lparr>bootEnv = boot_delta_ok, rootfsEnv = rootfs_both_mismatch\<rparr>"

definition run_boot_fallback :: run_env where
  "run_boot_fallback = \<lparr>bootEnv = boot_delta_mismatch, rootfsEnv = rootfs_delta_ok\<rparr>"

text \<open>
  An updater before its first check, and the replies of a check: a manifest that parses,
  a body that does not parse, a signature that \<open>gpg\<close> rejects, and a signature whose
  temporary file cannot be opened.
\<close>

definition fresh_updater :: Updater where
  "fresh_updater =
     \<lparr>machine = \<lparr>osVersion = 1, model = NEPOS1\<rparr>, state = StateUndefined,
      availableUpdate = zeroed, pendingReply = None\<rparr>"

definition manifest_reply :: reply_env where
  "manifest_reply =
     \<lparr>fromJson = JsonObject
        [(''build_id'', ''7''), (''rootfs'', ''rootfs.img''), (''rootfs_sha512'', ''cfcf''),
         (''bootimg'', ''boot.img''), (''bootimg_sha512'', ''cf2a''),
         (''rootfs_deltas'', ''rootfs/''), (''bootimg_deltas'', ''boot/''),
         (''signature'', ''update.sig'')],
      tmpFileOpens = True, gpg = NotFinished\<rparr>"

definition garbage_reply :: reply_env where
  "garbage_reply =
     \<lparr>fromJson = JsonParseError ''illegal value'', tmpFileOpens = True, gpg = NotFinished\<rparr>"

definition rejected_signature_reply :: reply_env where
  "rejected_signature_reply =
     \<lparr>fromJson = JsonParseError ''illegal value'', tmpFileOpens = True, gpg = ExitCode 1\<rparr>"

definition unwritable_signature_reply :: reply_env where
  "unwritable_signature_reply =
     \<lparr>fromJson = JsonParseError ''illegal value'', tmpFileOpens = False, gpg = ExitCode 0\<rparr>"

text \<open>
  A writer on a block device of eight bytes and a writer on a regular file of eight
  bytes, both open with four bytes written.
\<close>

definition writer_on_device :: QFile where
  "writer_on_device = \<lparr>opened = True, pos = 4, bytes = replicate 8 0, blockDevice = True\<rparr>"

definition writer_on_file :: QFile where
  "writer_on_file = \<lparr>opened = True, pos = 4, bytes = replicate 8 0, blockDevice = False\<rparr>"

section \<open>ImageReader: the size derived from the header\<close>

subsection \<open>Alignment\<close>

lemma and_not_mask_eq: "(w::'a::len word) AND NOT (mask k) = push_bit k (drop_bit k w)"
  by (rule bit_word_eqI) (auto simp: bit_simps)

lemma unat_and_not_mask: "unat ((w::u64) AND NOT (mask k)) = (unat w div 2 ^ k) * 2 ^ k"
proof -
  have le: "(unat w div 2 ^ k) * 2 ^ k \<le> unat w"
    by simp
  have "unat w < 2 ^ 64"
    using unsigned_less [of w] by simp
  with le have lt: "(unat w div 2 ^ k) * 2 ^ k < 2 ^ 64"
    by linarith
  have "unat (drop_bit k w) = drop_bit k (unat w)"
    by (rule unat_drop_bit_eq)
  also have "\<dots> = unat w div 2 ^ k"
    by (rule drop_bit_eq_div)
  finally have d: "unat (drop_bit k w) = unat w div 2 ^ k" .
  have "unat (push_bit k (drop_bit k w)) = take_bit 64 (push_bit k (unat (drop_bit k w)))"
    by (simp add: unsigned_push_bit_eq)
  also have "\<dots> = take_bit 64 ((unat w div 2 ^ k) * 2 ^ k)"
    by (simp only: d push_bit_eq_mult)
  also have "\<dots> = (unat w div 2 ^ k) * 2 ^ k"
    using lt by (simp only: take_bit_nat_eq_self_iff)
  finally show ?thesis
    by (simp only: and_not_mask_eq)
qed

lemma ALIGN_TO_pow2_unat:
  "unat (ALIGN_TO l (2 ^ k)) = (unat (l + mask k) div 2 ^ k) * 2 ^ k"
proof -
  have "l + 2 ^ k - 1 = l + (2 ^ k - 1)"
    by (simp add: algebra_simps)
  then have "ALIGN_TO l (2 ^ k) = (l + mask k) AND NOT (mask k)"
    by (simp only: ALIGN_TO_def mask_eq_decr_exp)
  then show ?thesis
    by (simp only: unat_and_not_mask)
qed

lemma unat_mask64:
  assumes "k \<le> 64"
  shows "unat (mask k :: u64) = 2 ^ k - 1"
proof -
  have "min LENGTH(64) k = k"
    using assms by simp
  then have "uint (mask k :: u64) = mask k"
    by (simp only: uint_mask_eq)
  then have "unat (mask k :: u64) = nat (mask k)"
    by (simp only: unat_eq_nat_uint)
  also have "\<dots> = mask k"
    by (rule nat_mask_eq)
  finally show ?thesis
    by (simp only: mask_eq_exp_minus_1)
qed

text \<open>
  For a power of two and without wrap-around, \<open>ALIGN_TO\<close> is the rounding of the
  specification.
\<close>

lemma ALIGN_TO_pow2:
  assumes "k < 64" "unat l + 2 ^ k \<le> 2 ^ 64"
  shows "unat (ALIGN_TO l (2 ^ k)) = spec_roundup (unat l) (2 ^ k)"
proof -
  have m: "unat (mask k :: u64) = 2 ^ k - 1"
    using assms(1) by (simp add: unat_mask64)
  have "unat (l + mask k) = (unat l + (2 ^ k - 1)) mod 2 ^ 64"
    by (simp add: unat_word_ariths m)
  also have "\<dots> = unat l + (2 ^ k - 1)"
    using assms(2) by simp
  finally have "unat (l + mask k) = unat l + 2 ^ k - 1"
    by simp
  then show ?thesis
    by (simp only: ALIGN_TO_pow2_unat spec_roundup_def)
qed



text \<open>\<open>spec_roundup n p\<close> is the least multiple of \<open>p\<close> that is not below \<open>n\<close>.\<close>

lemma spec_roundup_least:
  assumes "0 < p"
  shows "p dvd spec_roundup n p" "n \<le> spec_roundup n p" "spec_roundup n p < n + p"
proof -
  show "p dvd spec_roundup n p"
    by (simp add: spec_roundup_def)
  have "n + p - 1 = (n + p - 1) div p * p + (n + p - 1) mod p"
    by simp
  moreover have "(n + p - 1) mod p < p"
    using assms by simp
  ultimately show "n \<le> spec_roundup n p"
    unfolding spec_roundup_def by linarith
  have "(n + p - 1) div p * p \<le> n + p - 1"
    by simp
  then show "spec_roundup n p < n + p"
    unfolding spec_roundup_def using assms by linarith
qed


subsection \<open>Reading header fields\<close>

lemma le_nat_Nil: "le_nat [] = 0"
  by (simp add: le_nat_def)

lemma le_nat_Cons: "le_nat (b # bs) = unat b + 256 * le_nat bs"
  by (simp add: le_nat_def)

lemma le_nat_replicate_0: "le_nat (replicate n 0) = 0"
  by (induction n) (simp_all add: le_nat_Nil le_nat_Cons)

lemmas img_defs = android_image_def squashfs_image_def blank_file_def
  le32_def le64_def le_nat_Nil le_nat_Cons le_nat_replicate_0 SQUASHFS_MAGIC_def
  ANDROID_BOOTIMG_MAGIC_1_def ANDROID_BOOTIMG_MAGIC_2_def
  sizeof_squashfsHeader_def sizeof_androidBootHeader_def

lemmas open_defs = ImageReader_open_def ImageReader_new_def file_read_count_def
  open_check_size_def fileSize_of_def

subsection \<open>SquashFS\<close>






subsection \<open>Android boot images\<close>

lemma pow2_lt_32: "(2::nat) ^ k < 2 ^ 32 \<longleftrightarrow> k < 32"
  by (rule power_strict_increasing_iff) simp

lemma unat_ucast_32_64: "unat (ucast (w :: u32) :: u64) = unat w"
proof -
  have "unat w < 2 ^ LENGTH(32)"
    by (rule unsigned_less)
  then have "unat w < 2 ^ 64"
    by simp
  then show ?thesis
    by (simp add: unsigned_ucast_eq take_bit_nat_eq_self_iff)
qed

lemma ucast_pow2:
  assumes "unat (w :: u32) = 2 ^ k"
  shows "(ucast w :: u64) = 2 ^ k"
proof -
  have "unat (ucast w :: u64) = 2 ^ k"
    using assms by (simp add: unat_ucast_32_64)
  then have "of_nat (unat (ucast w :: u64)) = (of_nat (2 ^ k) :: u64)"
    by simp
  then show ?thesis
    by simp
qed

lemma u32_pow2_bound:
  assumes "unat (w :: u32) = 2 ^ k"
  shows "k < 32"
proof -
  have "unat w < 2 ^ 32"
    using unsigned_less [of w] by simp
  then have "(2::nat) ^ k < 2 ^ 32"
    using assms by simp
  then show ?thesis
    by (simp only: pow2_lt_32)
qed

text \<open>
  With a page size that is a power of two, each term of the sum is the rounding of the
  specification, and is small enough for the sum not to wrap.
\<close>

lemma ALIGN_TO_u32:
  assumes "unat (P :: u32) = 2 ^ k"
  shows "unat (ALIGN_TO (ucast (x :: u32)) (ucast P)) = spec_roundup (unat x) (2 ^ k)"
    and "unat (ALIGN_TO (ucast (x :: u32)) (ucast P)) < 2 ^ 33"
    and "unat (ALIGN_TO 608 (ucast P)) = spec_roundup 608 (2 ^ k)"
    and "unat (ALIGN_TO 608 (ucast P)) < 2 ^ 33"
proof -
  have k: "k < 32"
    using assms by (rule u32_pow2_bound)
  then have pk: "(2::nat) ^ k < 2 ^ 32"
    by (simp only: pow2_lt_32)
  have x: "unat x < 2 ^ 32"
    using unsigned_less [of x] by simp
  have P: "(ucast P :: u64) = 2 ^ k"
    using assms by (rule ucast_pow2)
  have "unat (ucast x :: u64) + 2 ^ k \<le> 2 ^ 64"
    using x pk by (simp add: unat_ucast_32_64)
  then have "unat (ALIGN_TO (ucast x) (2 ^ k)) = spec_roundup (unat (ucast x :: u64)) (2 ^ k)"
    using k by (intro ALIGN_TO_pow2) simp_all
  then show 1: "unat (ALIGN_TO (ucast x) (ucast P)) = spec_roundup (unat x) (2 ^ k)"
    by (simp add: P unat_ucast_32_64)
  have "spec_roundup (unat x) (2 ^ k) < unat x + 2 ^ k"
    by (rule spec_roundup_least) simp
  then show "unat (ALIGN_TO (ucast x) (ucast P)) < 2 ^ 33"
    using 1 x pk by simp
  have "unat (608 :: u64) + 2 ^ k \<le> 2 ^ 64"
    using pk by simp
  then have "unat (ALIGN_TO 608 (2 ^ k)) = spec_roundup (unat (608 :: u64)) (2 ^ k)"
    using k by (intro ALIGN_TO_pow2) simp_all
  then show 2: "unat (ALIGN_TO 608 (ucast P)) = spec_roundup 608 (2 ^ k)"
    by (simp add: P)
  have "spec_roundup 608 (2 ^ k) < 608 + 2 ^ k"
    by (rule spec_roundup_least) simp
  then show "unat (ALIGN_TO 608 (ucast P)) < 2 ^ 33"
    using 2 pk by simp
qed

lemma unat_sum5:
  assumes "unat (a :: u64) < 2 ^ 33" "unat (b :: u64) < 2 ^ 33" "unat (c :: u64) < 2 ^ 33"
    "unat (d :: u64) < 2 ^ 33" "unat (e :: u64) < 2 ^ 33"
  shows "unat (a + b + c + d + e) = unat a + unat b + unat c + unat d + unat e"
proof -
  have 1: "unat (a + b) = unat a + unat b"
    using assms by (simp add: unat_add_lem [symmetric])
  have 2: "unat (a + b + c) = unat a + unat b + unat c"
    using assms 1 unat_add_lem [of "a + b" c] by simp
  have 3: "unat (a + b + c + d) = unat a + unat b + unat c + unat d"
    using assms 2 unat_add_lem [of "a + b + c" d] by simp
  show ?thesis
    using assms 3 unat_add_lem [of "a + b + c + d" e] by simp
qed

lemma open_android_imageSize:
  assumes "openable f" "fstatOk f" "sizeof_androidBootHeader \<le> length (content f)"
    "le32 (content f) 0 = ANDROID_BOOTIMG_MAGIC_1" "le32 (content f) 4 = ANDROID_BOOTIMG_MAGIC_2"
  shows "imageSize (snd (ImageReader_open (ImageReader_new AndroidBootType f)))
           = ALIGN_TO 608 (ucast (le32 (content f) 36))
           + ALIGN_TO (ucast (le32 (content f) 8)) (ucast (le32 (content f) 36))
           + ALIGN_TO (ucast (le32 (content f) 16)) (ucast (le32 (content f) 36))
           + ALIGN_TO (ucast (le32 (content f) 24)) (ucast (le32 (content f) 36))
           + ALIGN_TO (ucast (le32 (content f) 40)) (ucast (le32 (content f) 36))"
  using assms
  by (simp add: ImageReader_open_def ImageReader_new_def file_read_count_def
      open_check_size_def Let_def split: option.splits)

lemma spec_roundup_0: "spec_roundup 0 (2 ^ k) = 0"
  by (simp add: spec_roundup_def)

text \<open>
  Claim C9, as the code has it. For an Android boot image whose header can be read, with
  both magics valid and a \<open>page_size\<close> field \<open>P\<close> that is a power of two,
  \<open>ImageReader::open\<close> stores as \<open>imageSize\<close> the sum of 608, \<open>kernel_size\<close>,
  \<open>initrd_size\<close>, \<open>second_size\<close> and \<open>dtb_size\<close>, each rounded up to a multiple of
  \<open>P\<close>; when the four sizes are 0, \<open>imageSize\<close> is 608 rounded up to a multiple of \<open>P\<close>.
\<close>

theorem android_imageSize:
  assumes "openable f" "fstatOk f" "sizeof_androidBootHeader \<le> length (content f)"
    and "le32 (content f) 0 = ANDROID_BOOTIMG_MAGIC_1"
    and "le32 (content f) 4 = ANDROID_BOOTIMG_MAGIC_2"
    and "unat (le32 (content f) 36) = 2 ^ k"
  shows "unat (imageSize (snd (ImageReader_open (ImageReader_new AndroidBootType f))))
           = spec_roundup 608 (2 ^ k)
           + spec_roundup (unat (le32 (content f) 8)) (2 ^ k)
           + spec_roundup (unat (le32 (content f) 16)) (2 ^ k)
           + spec_roundup (unat (le32 (content f) 24)) (2 ^ k)
           + spec_roundup (unat (le32 (content f) 40)) (2 ^ k)
       \<and> (le32 (content f) 8 = 0 \<and> le32 (content f) 16 = 0
            \<and> le32 (content f) 24 = 0 \<and> le32 (content f) 40 = 0 \<longrightarrow>
          unat (imageSize (snd (ImageReader_open (ImageReader_new AndroidBootType f))))
            = spec_roundup 608 (2 ^ k))"
proof -
  let ?P = "le32 (content f) 36"
  note a = ALIGN_TO_u32 [OF assms(6)]
  have s: "imageSize (snd (ImageReader_open (ImageReader_new AndroidBootType f)))
           = ALIGN_TO 608 (ucast ?P)
           + ALIGN_TO (ucast (le32 (content f) 8)) (ucast ?P)
           + ALIGN_TO (ucast (le32 (content f) 16)) (ucast ?P)
           + ALIGN_TO (ucast (le32 (content f) 24)) (ucast ?P)
           + ALIGN_TO (ucast (le32 (content f) 40)) (ucast ?P)"
    using assms(1-5) by (rule open_android_imageSize)
  have r: "unat (imageSize (snd (ImageReader_open (ImageReader_new AndroidBootType f))))
           = spec_roundup 608 (2 ^ k)
           + spec_roundup (unat (le32 (content f) 8)) (2 ^ k)
           + spec_roundup (unat (le32 (content f) 16)) (2 ^ k)
           + spec_roundup (unat (le32 (content f) 24)) (2 ^ k)
           + spec_roundup (unat (le32 (content f) 40)) (2 ^ k)"
    unfolding s by (simp only: unat_sum5 [OF a(4) a(2) a(2) a(2) a(2)] a(1) a(3))
  show ?thesis
  proof (intro conjI impI)
    show "unat (imageSize (snd (ImageReader_open (ImageReader_new AndroidBootType f))))
           = spec_roundup 608 (2 ^ k)
           + spec_roundup (unat (le32 (content f) 8)) (2 ^ k)
           + spec_roundup (unat (le32 (content f) 16)) (2 ^ k)
           + spec_roundup (unat (le32 (content f) 24)) (2 ^ k)
           + spec_roundup (unat (le32 (content f) 40)) (2 ^ k)"
      by (rule r)
  next
    assume "le32 (content f) 8 = 0 \<and> le32 (content f) 16 = 0
            \<and> le32 (content f) 24 = 0 \<and> le32 (content f) 40 = 0"
    then show "unat (imageSize (snd (ImageReader_open (ImageReader_new AndroidBootType f))))
            = spec_roundup 608 (2 ^ k)"
      using r by (simp add: spec_roundup_0)
  qed
qed

text \<open>
  The theorem at a header with \<open>page_size = 2048\<close> and \<open>kernel_size = 5000\<close>, and at one
  with \<open>page_size = 2048\<close> and every size 0.
\<close>

theorem android_imageSize_witness:
  "unat (le32 (content (android_image [0x88, 0x13, 0, 0] [0, 8, 0, 0] [])) 36) = 2 ^ 11
   \<and> unat (le32 (content (android_image [0x88, 0x13, 0, 0] [0, 8, 0, 0] [])) 8) = 5000
   \<and> unat (imageSize (snd (ImageReader_open (ImageReader_new AndroidBootType
         (android_image [0x88, 0x13, 0, 0] [0, 8, 0, 0] []))))) = 2048 + 6144
   \<and> le32 (content (android_image [0, 0, 0, 0] [0, 8, 0, 0] [])) 8 = 0
   \<and> unat (imageSize (snd (ImageReader_open (ImageReader_new AndroidBootType
         (android_image [0, 0, 0, 0] [0, 8, 0, 0] []))))) = 2048"
proof -
  let ?f = "android_image [0x88, 0x13, 0, 0] [0, 8, 0, 0] []"
  let ?g = "android_image [0, 0, 0, 0] [0, 8, 0, 0] []"
  have f: "openable ?f" "fstatOk ?f" "sizeof_androidBootHeader \<le> length (content ?f)"
    "le32 (content ?f) 0 = ANDROID_BOOTIMG_MAGIC_1" "le32 (content ?f) 4 = ANDROID_BOOTIMG_MAGIC_2"
    "unat (le32 (content ?f) 36) = 2 ^ 11"
    by (simp_all add: img_defs)
  have g: "openable ?g" "fstatOk ?g" "sizeof_androidBootHeader \<le> length (content ?g)"
    "le32 (content ?g) 0 = ANDROID_BOOTIMG_MAGIC_1" "le32 (content ?g) 4 = ANDROID_BOOTIMG_MAGIC_2"
    "unat (le32 (content ?g) 36) = 2 ^ 11"
    by (simp_all add: img_defs)
  have fs: "unat (le32 (content ?f) 8) = 5000" "le32 (content ?f) 16 = 0"
    "le32 (content ?f) 24 = 0" "le32 (content ?f) 40 = 0"
    by (simp_all add: img_defs)
  have gs: "le32 (content ?g) 8 = 0" "le32 (content ?g) 16 = 0"
    "le32 (content ?g) 24 = 0" "le32 (content ?g) 40 = 0"
    by (simp_all add: img_defs)
  have r: "spec_roundup 608 (2 ^ 11) = 2048" "spec_roundup 5000 (2 ^ 11) = 6144"
    "spec_roundup 0 (2 ^ 11) = 0"
    by (simp_all add: spec_roundup_def)
  show ?thesis
    using android_imageSize [OF f] android_imageSize [OF g] f(6) fs gs r by simp
qed

text \<open>
  Claim C9 as the specification states it fails for a page size that is not a power of
  two: with \<open>page_size = 3\<close> and every size 0, \<open>open\<close> stores 608, which is not a multiple
  of 3; the sum of the specification is 609.
\<close>

theorem android_imageSize_counterexample:
  "le32 (content (android_image [0, 0, 0, 0] [3, 0, 0, 0] [])) 0 = ANDROID_BOOTIMG_MAGIC_1
   \<and> le32 (content (android_image [0, 0, 0, 0] [3, 0, 0, 0] [])) 4 = ANDROID_BOOTIMG_MAGIC_2
   \<and> unat (imageSize (snd (ImageReader_open (ImageReader_new AndroidBootType
         (android_image [0, 0, 0, 0] [3, 0, 0, 0] [])))))
     \<noteq> spec_roundup 608 (unat (le32 (content (android_image [0, 0, 0, 0] [3, 0, 0, 0] [])) 36))
       + spec_roundup (unat (le32 (content (android_image [0, 0, 0, 0] [3, 0, 0, 0] [])) 8))
           (unat (le32 (content (android_image [0, 0, 0, 0] [3, 0, 0, 0] [])) 36))
       + spec_roundup (unat (le32 (content (android_image [0, 0, 0, 0] [3, 0, 0, 0] [])) 16))
           (unat (le32 (content (android_image [0, 0, 0, 0] [3, 0, 0, 0] [])) 36))
       + spec_roundup (unat (le32 (content (android_image [0, 0, 0, 0] [3, 0, 0, 0] [])) 24))
           (unat (le32 (content (android_image [0, 0, 0, 0] [3, 0, 0, 0] [])) 36))
       + spec_roundup (unat (le32 (content (android_image [0, 0, 0, 0] [3, 0, 0, 0] [])) 40))
           (unat (le32 (content (android_image [0, 0, 0, 0] [3, 0, 0, 0] [])) 36))"
  by (simp add: img_defs open_defs ALIGN_TO_def spec_roundup_def Let_def)

section \<open>Verification of an image\<close>

subsection \<open>What the loop hashes\<close>

lemma hash_loop_data:
  "i \<le> sz \<Longrightarrow>
     fst (hash_loop st sz buf i acc out) = acc @ take (sz - i) (drop i buf)"
proof (induction st sz buf i acc out rule: hash_loop.induct)
  case (1 st sz buf i acc out)
  show ?case
  proof (cases "i < sz")
    case False
    then have "hash_loop st sz buf i acc out = (acc, out)"
      by (subst hash_loop.simps) simp
    with False "1.prems" show ?thesis
      by simp
  next
    case True
    define l where "l = min (1024 * 1024) (sz - i)"
    have le: "i + l \<le> sz"
      using True by (simp add: l_def)
    have split: "sz - i = l + (sz - (i + l))"
      using le by simp
    have "fst (hash_loop st sz buf i acc out)
        = fst (hash_loop st sz buf (i + l) (acc @ take l (drop i buf))
            (out @ emitProgress st False (fdiv (int (i + l)) (int sz))))"
      using True by (subst hash_loop.simps) (simp add: l_def Let_def)
    also have "\<dots> = (acc @ take l (drop i buf)) @ take (sz - (i + l)) (drop (i + l) buf)"
      using "1.IH" [OF True l_def le] .
    also have "\<dots> = acc @ take (sz - i) (drop i buf)"
      by (subst split) (simp add: take_add add.commute)
    finally show ?thesis .
  qed
qed

lemma hash_loop_progress:
  "snd (hash_loop st sz buf i acc out) = snd (hash_loop st sz buf' i acc' out)"
proof (induction st sz buf i acc out arbitrary: acc' rule: hash_loop.induct)
  case (1 st sz buf i acc out)
  show ?case
  proof (cases "i < sz")
    case False
    then have "hash_loop st sz b i a out = (a, out)" for a b
      by (subst hash_loop.simps) simp
    then show ?thesis
      by simp
  next
    case True
    define l where "l = min (1024 * 1024) (sz - i)"
    have u: "hash_loop st sz b i a out
        = hash_loop st sz b (i + l) (a @ take l (drop i b))
            (out @ emitProgress st False (fdiv (int (i + l)) (int sz)))" for a b
      using True by (subst hash_loop.simps) (simp add: l_def Let_def)
    show ?thesis
      using "1.IH" [OF True l_def, of "acc' @ take l (drop i buf')"]
      by (simp add: u)
  qed
qed

text \<open>
  After a successful \<open>open\<close>, \<open>verifyImage\<close> compares the hexadecimal digest of the first
  \<open>imageSize\<close> bytes of the file with the expected string.
\<close>

lemma open_isOpen:
  "ImageReader_open (ImageReader_new ty f) = (True, r) \<Longrightarrow> isOpen r \<and> rfile r = f"
  by (auto simp: ImageReader_open_def ImageReader_new_def open_check_size_def Let_def
      split: if_splits ImageType.splits option.splits)

lemma verifyImage_opened:
  assumes "ImageReader_open (ImageReader_new ty f) = (True, r)"
  shows "verifyImage hashfn st ty f sha512 =
           (toHex (hashfn (take (unat (imageSize r)) (content f))) = sha512,
            snd (hash_loop st (unat (imageSize r)) [] 0 [] []))"
proof -
  let ?n = "unat (imageSize r)"
  let ?buf = "take ?n (content f)"
  have o: "isOpen r" "rfile r = f"
    using open_isOpen [OF assms] by simp_all
  have "fst (hash_loop st ?n ?buf 0 [] []) = [] @ take (?n - 0) (drop 0 ?buf)"
    by (rule hash_loop_data) simp
  then have d: "fst (hash_loop st ?n ?buf 0 [] []) = ?buf"
    by simp
  have p: "snd (hash_loop st ?n ?buf 0 [] []) = snd (hash_loop st ?n [] 0 [] [])"
    by (rule hash_loop_progress)
  show ?thesis
    using o d p
    by (simp add: verifyImage_def assms ImageReader_map_def ImageReader_size_def
        split_beta)
qed

lemma verifyImage_not_opened:
  assumes "ImageReader_open (ImageReader_new ty f) = (False, r)"
  shows "verifyImage hashfn st ty f sha512 = (False, [])"
  by (simp add: verifyImage_def assms)

text \<open>
  Bytes that follow an image which opens change neither what \<open>open\<close> derives from the
  header nor what \<open>verifyImage\<close> answers.
\<close>

lemma le32_append:
  "off + 4 \<le> length c \<Longrightarrow> le32 (c @ e) off = le32 c off"
  by (simp add: le32_def)

lemma le64_append:
  "off + 8 \<le> length c \<Longrightarrow> le64 (c @ e) off = le64 c off"
  by (simp add: le64_def)

lemma open_appended:
  assumes "ImageReader_open (ImageReader_new ty f) = (True, r)"
  shows "ImageReader_open (ImageReader_new ty (f\<lparr>content := content f @ extra\<rparr>))
           = (True, r\<lparr>rfile := f\<lparr>content := content f @ extra\<rparr>\<rparr>)"
proof (cases ty)
  case SquashFsType
  with assms show ?thesis
    by (auto simp: ImageReader_open_def ImageReader_new_def file_read_count_def
        open_check_size_def fileSize_of_def Let_def le32_append le64_append
        sizeof_squashfsHeader_def min_def
        split: if_splits file_mode.splits)
next
  case AndroidBootType
  with assms show ?thesis
    by (auto simp: ImageReader_open_def ImageReader_new_def file_read_count_def
        open_check_size_def fileSize_of_def Let_def le32_append
        sizeof_androidBootHeader_def min_def
        split: if_splits file_mode.splits)
qed

lemma opened_size_le:
  assumes "ImageReader_open (ImageReader_new ty f) = (True, r)"
  shows "unat (imageSize r) \<le> length (content f)"
  using assms
  by (auto simp: ImageReader_open_def ImageReader_new_def open_check_size_def
      fileSize_of_def Let_def split: if_splits ImageType.splits file_mode.splits)

lemma verifyImage_appended:
  assumes "ImageReader_open (ImageReader_new ty f) = (True, r)"
  shows "verifyImage hashfn st ty (f\<lparr>content := content f @ extra\<rparr>) sha512
           = verifyImage hashfn st ty f sha512"
  using opened_size_le [OF assms]
  by (simp add: verifyImage_opened [OF assms] verifyImage_opened [OF open_appended [OF assms]])

text \<open>
  Claim C7. When two files both open as images of the same kind with the same
  header-derived \<open>imageSize\<close> and agree on their first \<open>imageSize\<close> bytes, \<open>verifyImage\<close>
  gives the same outcome (and the same progress signals) for both, whatever follows
  those bytes: the digest is taken over exactly the first \<open>imageSize\<close> bytes. In
  particular, bytes appended to an image that opens do not change the outcome.
\<close>

theorem verifyImage_first_imageSize_bytes:
  assumes "ImageReader_open (ImageReader_new ty f1) = (True, r1)"
    and "ImageReader_open (ImageReader_new ty f2) = (True, r2)"
    and "imageSize r1 = imageSize r2"
    and "take (unat (imageSize r1)) (content f1) = take (unat (imageSize r1)) (content f2)"
  shows "fst (verifyImage hashfn st ty f1 sha512)
           = (toHex (hashfn (take (unat (imageSize r1)) (content f1))) = sha512)
       \<and> verifyImage hashfn st ty f1 sha512 = verifyImage hashfn st ty f2 sha512
       \<and> verifyImage hashfn st ty (f1\<lparr>content := content f1 @ extra\<rparr>) sha512
           = verifyImage hashfn st ty f1 sha512"
  using assms(3,4)
  by (simp add: verifyImage_opened [OF assms(1)] verifyImage_opened [OF assms(2)]
      verifyImage_appended [OF assms(1)])

lemma open_squashfs_4096:
  "ImageReader_open (ImageReader_new SquashFsType squashfs_4096)
     = (True, \<lparr>rtype = SquashFsType, rfile = squashfs_4096, isOpen = True,
               mappedBuffer = False, imageSize = 4096\<rparr>)"
  by (simp add: squashfs_4096_def img_defs open_defs ALIGN_TO_def Let_def)

lemma open_squashfs_4096_tail:
  "ImageReader_open (ImageReader_new SquashFsType squashfs_4096_tail)
     = (True, \<lparr>rtype = SquashFsType, rfile = squashfs_4096_tail, isOpen = True,
               mappedBuffer = False, imageSize = 4096\<rparr>)"
  by (simp add: squashfs_4096_tail_def squashfs_4096_def img_defs open_defs ALIGN_TO_def Let_def)

lemma open_android_2048:
  "ImageReader_open (ImageReader_new AndroidBootType android_2048)
     = (True, \<lparr>rtype = AndroidBootType, rfile = android_2048, isOpen = True,
               mappedBuffer = False, imageSize = 2048\<rparr>)"
  by (simp add: android_2048_def img_defs open_defs ALIGN_TO_def Let_def)

lemma length_squashfs_4096: "length (content squashfs_4096) = 4096"
  by (simp add: squashfs_4096_def squashfs_image_def)

lemma length_android_2048: "length (content android_2048) = 2048"
  by (simp add: android_2048_def android_image_def)

lemma stub_digest_squashfs_4096: "stub_digest (take 4096 (content squashfs_4096)) = [0xcf, 0xcf]"
  by (simp add: stub_digest_def squashfs_4096_def squashfs_image_def sum_list_replicate)

lemma stub_digest_android_2048: "stub_digest (take 2048 (content android_2048)) = [0xcf, 0x2a]"
  by (simp add: stub_digest_def android_2048_def android_image_def sum_list_replicate)

lemma toHex_cfcf: "toHex [0xcf, 0xcf] = ''cfcf''"
  by (simp add: toHex_def hexdigit_def)

text \<open>
  The theorem at the SquashFS image of 4096 bytes and the same image followed by two
  more bytes.
\<close>

theorem verifyImage_first_imageSize_bytes_witness:
  "take 4096 (content squashfs_4096) = take 4096 (content squashfs_4096_tail)
   \<and> content squashfs_4096 \<noteq> content squashfs_4096_tail
   \<and> fst (verifyImage stub_digest DownloadRootfsState SquashFsType squashfs_4096 ''cfcf'')
   \<and> verifyImage stub_digest DownloadRootfsState SquashFsType squashfs_4096 ''cfcf''
       = verifyImage stub_digest DownloadRootfsState SquashFsType squashfs_4096_tail ''cfcf''"
proof -
  let ?r1 = "\<lparr>rtype = SquashFsType, rfile = squashfs_4096, isOpen = True,
              mappedBuffer = False, imageSize = 4096\<rparr>"
  let ?r2 = "\<lparr>rtype = SquashFsType, rfile = squashfs_4096_tail, isOpen = True,
              mappedBuffer = False, imageSize = 4096\<rparr>"
  have e: "take 4096 (content squashfs_4096) = take 4096 (content squashfs_4096_tail)"
    by (simp add: squashfs_4096_tail_def length_squashfs_4096)
  have n: "content squashfs_4096 \<noteq> content squashfs_4096_tail"
    by (simp add: squashfs_4096_tail_def)
  have h: "toHex (stub_digest (take 4096 (content squashfs_4096))) = ''cfcf''"
    by (simp add: stub_digest_squashfs_4096 toHex_cfcf)
  have sz: "unat (imageSize ?r1) = 4096"
    by simp
  have s: "imageSize ?r1 = imageSize ?r2"
    by simp
  have e': "take (unat (imageSize ?r1)) (content squashfs_4096)
      = take (unat (imageSize ?r1)) (content squashfs_4096_tail)"
    unfolding sz by (rule e)
  note t = verifyImage_first_imageSize_bytes [OF open_squashfs_4096 open_squashfs_4096_tail s e',
      of stub_digest DownloadRootfsState "''cfcf''", unfolded sz h]
  have "fst (verifyImage stub_digest DownloadRootfsState SquashFsType squashfs_4096 ''cfcf'')"
    using conjunct1 [OF t] by simp
  then show ?thesis
    using e n conjunct1 [OF conjunct2 [OF t]] by (intro conjI)
qed

subsection \<open>The comparison with the expected digest\<close>

lemma hexdigit_lower: "hexdigit n \<in> set ''0123456789abcdef''"
proof -
  have "n mod 16 < length ''0123456789abcdef''"
    by simp
  then show ?thesis
    unfolding hexdigit_def by (rule nth_mem)
qed

lemma set_toHex: "set (toHex bs) \<subseteq> set ''0123456789abcdef''"
proof
  fix c
  assume "c \<in> set (toHex bs)"
  then obtain n where "c = hexdigit n"
    by (auto simp: toHex_def)
  then show "c \<in> set ''0123456789abcdef''"
    by (simp only: hexdigit_lower)
qed

lemma verifyImage_accepts:
  assumes "fst (verifyImage hashfn st ty f sha512)"
  obtains r where "ImageReader_open (ImageReader_new ty f) = (True, r)"
    and "sha512 = toHex (hashfn (take (unat (imageSize r)) (content f)))"
proof (cases "ImageReader_open (ImageReader_new ty f)")
  case (Pair ok r)
  show ?thesis
  proof (cases ok)
    case False
    with Pair assms show ?thesis
      by (simp add: verifyImage_not_opened)
  next
    case True
    with Pair assms that show ?thesis
      by (simp add: verifyImage_opened)
  qed
qed

text \<open>
  Claim C4, as the code has it. The comparison is exact: an expected string that
  \<open>verifyImage\<close> accepts consists of the digits \<open>0\<close> to \<open>9\<close> and the lower-case letters
  \<open>a\<close> to \<open>f\<close> only, and it is the only string accepted for that image. So an expected
  digest written with an upper-case letter is never accepted.
\<close>

theorem verifyImage_case_sensitive:
  assumes "fst (verifyImage hashfn st ty f sha512)"
  shows "set sha512 \<subseteq> set ''0123456789abcdef''
       \<and> (\<forall>s. fst (verifyImage hashfn st ty f s) \<longrightarrow> s = sha512)"
proof -
  from assms obtain r where o: "ImageReader_open (ImageReader_new ty f) = (True, r)"
    and s: "sha512 = toHex (hashfn (take (unat (imageSize r)) (content f)))"
    by (rule verifyImage_accepts)
  have "set sha512 \<subseteq> set ''0123456789abcdef''"
    unfolding s by (rule set_toHex)
  moreover have "\<forall>s. fst (verifyImage hashfn st ty f s) \<longrightarrow> s = sha512"
    by (auto simp: verifyImage_opened [OF o] s)
  ultimately show ?thesis
    by (rule conjI)
qed

lemma verify_squashfs_4096:
  "fst (verifyImage stub_digest st SquashFsType squashfs_4096 s) = (''cfcf'' = s)"
  by (simp add: verifyImage_opened [OF open_squashfs_4096] stub_digest_squashfs_4096
      toHex_cfcf)

text \<open>The theorem at the SquashFS image of 4096 bytes, which is accepted for \<open>cfcf\<close>.\<close>

theorem verifyImage_case_sensitive_witness:
  "fst (verifyImage stub_digest DownloadRootfsState SquashFsType squashfs_4096 ''cfcf'')
   \<and> set ''cfcf'' \<subseteq> set ''0123456789abcdef''
   \<and> (\<forall>s. fst (verifyImage stub_digest DownloadRootfsState SquashFsType squashfs_4096 s)
          = (s = ''cfcf''))"
proof -
  have a: "fst (verifyImage stub_digest DownloadRootfsState SquashFsType squashfs_4096 ''cfcf'')"
    by (simp add: verify_squashfs_4096)
  note t = verifyImage_case_sensitive [OF a]
  have "\<forall>s. fst (verifyImage stub_digest DownloadRootfsState SquashFsType squashfs_4096 s)
          = (s = ''cfcf'')"
    using conjunct2 [OF t] a by blast
  then show ?thesis
    using a conjunct1 [OF t] by (intro conjI)
qed

text \<open>
  Claim C4 as the specification states it fails: the image accepted for \<open>cfcf\<close> is
  rejected for \<open>CFCF\<close>.
\<close>

theorem verifyImage_case_counterexample:
  "fst (verifyImage stub_digest DownloadRootfsState SquashFsType squashfs_4096 ''cfcf'')
   \<and> \<not> fst (verifyImage stub_digest DownloadRootfsState SquashFsType squashfs_4096 ''CFCF'')"
  by (simp add: verify_squashfs_4096)

section \<open>The delta attempt and the full-image fallback\<close>

lemma delta_error_kept:
  "error s \<Longrightarrow> error (fold (delta_handler st) sigs s)"
proof (induction sigs arbitrary: s)
  case Nil
  then show ?case by simp
next
  case (Cons sg sigs)
  have "error (delta_handler st sg s)"
    using Cons.prems by (cases sg) simp_all
  then show ?case
    by (simp add: Cons.IH)
qed

lemma delta_failure_sets_error:
  "sg \<in> set sigs \<Longrightarrow> delta_failure sg \<Longrightarrow> error (fold (delta_handler st) sigs s)"
proof (induction sigs arbitrary: s)
  case Nil
  then show ?case by simp
next
  case (Cons a sigs)
  show ?case
  proof (cases "a = sg")
    case True
    have "error (delta_handler st sg s)"
      using Cons.prems(2) by (cases sg) auto
    then show ?thesis
      using True by (simp add: delta_error_kept)
  next
    case False
    then have "sg \<in> set sigs"
      using Cons.prems(1) by simp
    then show ?thesis
      using Cons.IH Cons.prems(2) by simp
  qed
qed

lemma downloadDeltaImage_failure:
  assumes "sg \<in> set sigs" "delta_failure sg"
  shows "\<not> fst (downloadDeltaImage st deltaUrl dict outputOpens sigs)"
  using delta_failure_sets_error [OF assms, of st transfer_init]
  by (simp add: downloadDeltaImage_def run_loop_def Let_def split: option.splits)


lemma full_requests_progress: "full_requests (map progress vs) = []"
  by (induction vs) simp_all

lemma downloadDeltaImage_no_full:
  "full_requests (snd (downloadDeltaImage st deltaUrl dict outputOpens sigs)) = []"
  by (simp add: downloadDeltaImage_def Let_def full_requests_progress split: option.splits)

text \<open>
  Claim C1 does not hold of the code. When the dictionary opens and the delta transfer
  reports a transport error or a decoder error, \<open>downloadAndVerify\<close> returns \<open>false\<close>
  straight after \<open>downloadDeltaImage\<close>: it has issued no full-image request, and the
  kind is abandoned.
\<close>

theorem delta_failure_abandons_kind:
  assumes "ImageReader_open (ImageReader_new ty (dictionary env)) = (True, dict)"
    and "sg \<in> set (deltaSignals env)" "delta_failure sg"
  shows "\<not> fst (downloadAndVerify hashfn st ty env fullImageUrl deltaImageUrl sha512)
       \<and> full_requests (snd (downloadAndVerify hashfn st ty env fullImageUrl deltaImageUrl sha512))
           = []"
proof -
  have d: "\<not> fst (downloadDeltaImage st deltaImageUrl dict (deltaOutputOpens env)
              (deltaSignals env))"
    using assms(2,3) by (rule downloadDeltaImage_failure)
  then have "downloadAndVerify hashfn st ty env fullImageUrl deltaImageUrl sha512
      = (False, snd (downloadDeltaImage st deltaImageUrl dict (deltaOutputOpens env)
              (deltaSignals env)))"
    by (simp add: downloadAndVerify_def assms(1) split_beta)
  then show ?thesis
    by (simp add: downloadDeltaImage_no_full)
qed

lemma snd_hash_loop_one_chunk:
  assumes "0 < n" "n \<le> 1024 * 1024"
  shows "snd (hash_loop st n buf 0 acc out) = out @ emitProgress st False (fdiv (int n) (int n))"
proof -
  have "hash_loop st n buf n a b = (a, b)" for a b
    by (subst hash_loop.simps) simp
  then show ?thesis
    using assms by (subst hash_loop.simps) (simp add: Let_def min_def)
qed





lemma emit_full: "emitProgress st isDownload (fdiv n n) =
    (if n = 0 then [NaN] else [Fin (quarter st isDownload + 1 / 4)])"
  by (cases st) (simp_all add: emitProgress_def fdiv_def quarter_def)

lemma verify_android_2048:
  "verifyImage stub_digest st AndroidBootType android_2048 s
     = (''cf2a'' = s, [Fin (quarter st False + 1 / 4)])"
  by (simp add: verifyImage_opened [OF open_android_2048] stub_digest_android_2048
      toHex_def hexdigit_def snd_hash_loop_one_chunk emit_full)


lemma verify_squashfs_4096_full:
  "verifyImage stub_digest st SquashFsType squashfs_4096 s
     = (''cfcf'' = s, [Fin (quarter st False + 1 / 4)])"
  by (simp add: verifyImage_opened [OF open_squashfs_4096] stub_digest_squashfs_4096
      toHex_def hexdigit_def snd_hash_loop_one_chunk emit_full)


lemma boot_delta_transport_error_sel:
  "dictionary boot_delta_transport_error = android_2048"
  "deltaOutputOpens boot_delta_transport_error"
  "deltaSignals boot_delta_transport_error = [ErrorSignal, Finished]"
  "outputAtFirstVerify boot_delta_transport_error = android_2048_bad"
  "fullOutputOpens boot_delta_transport_error"
  "fullSignals boot_delta_transport_error
     = [ReadyRead False True, DownloadProgress 2048 2048, Finished]"
  "outputAtSecondVerify boot_delta_transport_error = android_2048"
  by (simp_all add: boot_delta_transport_error_def)

lemma boot_delta_decoder_error_sel:
  "dictionary boot_delta_decoder_error = android_2048"
  "deltaOutputOpens boot_delta_decoder_error"
  "deltaSignals boot_delta_decoder_error
     = [ReadyRead False True, DownloadProgress 512 1024, ReadyRead False False, Finished]"
  by (simp_all add: boot_delta_decoder_error_def boot_delta_transport_error_def)

text \<open>
  The theorem at the run in which the delta transfer of the boot image meets a transport
  error, and at the run in which the decoder refuses a chunk: nothing but the delta
  request and the progress of the delta transfer happens.
\<close>

theorem delta_failure_abandons_kind_witness:
  "delta_failure ErrorSignal
   \<and> ErrorSignal \<in> set (deltaSignals boot_delta_transport_error)
   \<and> fst (ImageReader_open (ImageReader_new AndroidBootType
            (dictionary boot_delta_transport_error)))
   \<and> downloadAndVerify stub_digest DownloadBootimgState AndroidBootType
        boot_delta_transport_error ''boot.img'' ''boot/1.vcdiff'' ''cf2a''
      = (False, [Get DeltaRequest ''boot/1.vcdiff''])
   \<and> delta_failure (ReadyRead False False)
   \<and> ReadyRead False False \<in> set (deltaSignals boot_delta_decoder_error)
   \<and> downloadAndVerify stub_digest DownloadBootimgState AndroidBootType
        boot_delta_decoder_error ''boot.img'' ''boot/1.vcdiff'' ''cf2a''
      = (False, [Get DeltaRequest ''boot/1.vcdiff'', progress (Fin (1 / 8))])"
proof -
  let ?r = "\<lparr>rtype = AndroidBootType, rfile = android_2048, isOpen = True,
               mappedBuffer = False, imageSize = 2048\<rparr>"
  have o: "ImageReader_open (ImageReader_new AndroidBootType
             (dictionary boot_delta_transport_error)) = (True, ?r)"
    by (simp add: boot_delta_transport_error_sel open_android_2048)
  have o': "ImageReader_open (ImageReader_new AndroidBootType
             (dictionary boot_delta_decoder_error)) = (True, ?r)"
    by (simp add: boot_delta_decoder_error_sel open_android_2048)
  have m: "ErrorSignal \<in> set (deltaSignals boot_delta_transport_error)"
    by (simp add: boot_delta_transport_error_sel)
  have m': "ReadyRead False False \<in> set (deltaSignals boot_delta_decoder_error)"
    by (simp add: boot_delta_decoder_error_sel)
  have f: "delta_failure ErrorSignal" and f': "delta_failure (ReadyRead False False)"
    by simp_all
  have e: "snd (downloadAndVerify stub_digest DownloadBootimgState AndroidBootType
        boot_delta_transport_error ''boot.img'' ''boot/1.vcdiff'' ''cf2a'')
      = [Get DeltaRequest ''boot/1.vcdiff'']"
    by (simp add: downloadAndVerify_def boot_delta_transport_error_sel open_android_2048
        downloadDeltaImage_def ImageReader_map_def run_loop_def transfer_init_def)
  have e': "snd (downloadAndVerify stub_digest DownloadBootimgState AndroidBootType
        boot_delta_decoder_error ''boot.img'' ''boot/1.vcdiff'' ''cf2a'')
      = [Get DeltaRequest ''boot/1.vcdiff'', progress (Fin (1 / 8))]"
    by (simp add: downloadAndVerify_def boot_delta_decoder_error_sel open_android_2048
        downloadDeltaImage_def ImageReader_map_def run_loop_def transfer_init_def
        emitProgress_def fdiv_def)
  have "\<not> fst (downloadAndVerify stub_digest DownloadBootimgState AndroidBootType
        boot_delta_transport_error ''boot.img'' ''boot/1.vcdiff'' ''cf2a'')"
    using delta_failure_abandons_kind [OF o m f] by simp
  with e have r: "downloadAndVerify stub_digest DownloadBootimgState AndroidBootType
        boot_delta_transport_error ''boot.img'' ''boot/1.vcdiff'' ''cf2a''
      = (False, [Get DeltaRequest ''boot/1.vcdiff''])"
    by (simp add: prod_eq_iff)
  have "\<not> fst (downloadAndVerify stub_digest DownloadBootimgState AndroidBootType
        boot_delta_decoder_error ''boot.img'' ''boot/1.vcdiff'' ''cf2a'')"
    using delta_failure_abandons_kind [OF o' m' f'] by simp
  with e' have r': "downloadAndVerify stub_digest DownloadBootimgState AndroidBootType
        boot_delta_decoder_error ''boot.img'' ''boot/1.vcdiff'' ''cf2a''
      = (False, [Get DeltaRequest ''boot/1.vcdiff'', progress (Fin (1 / 8))])"
    by (simp add: prod_eq_iff)
  from o m f r m' f' r' show ?thesis
    by simp
qed

section \<open>The boot selector\<close>




















subsection \<open>The concrete runs\<close>

lemma boot_delta_ok_sel:
  "dictionary boot_delta_ok = android_2048"
  "deltaOutputOpens boot_delta_ok"
  "deltaSignals boot_delta_ok = [ReadyRead False True, DownloadProgress 512 1024,
     ReadyRead False True, DownloadProgress 1024 1024, Finished]"
  "outputAtFirstVerify boot_delta_ok = android_2048"
  by (simp_all add: boot_delta_ok_def)

lemma rootfs_delta_ok_sel:
  "dictionary rootfs_delta_ok = squashfs_4096"
  "deltaOutputOpens rootfs_delta_ok"
  "deltaSignals rootfs_delta_ok = [ReadyRead False True, DownloadProgress 512 1024,
     ReadyRead False True, DownloadProgress 1024 1024, Finished]"
  "outputAtFirstVerify rootfs_delta_ok = squashfs_4096"
  by (simp_all add: rootfs_delta_ok_def)



lemmas transfer_defs = downloadAndVerify_def verifyOrFull_def downloadDeltaImage_def
  downloadFullImage_def ImageReader_map_def run_loop_def transfer_init_def emitProgress_def
  fdiv_def quarter_def

lemma downloadAndVerify_boot_delta_ok:
  "downloadAndVerify stub_digest DownloadBootimgState AndroidBootType boot_delta_ok
     ''boot.img'' ''boot/1.vcdiff'' ''cf2a''
   = (True, [Get DeltaRequest ''boot/1.vcdiff'', progress (Fin (1 / 8)), progress (Fin (1 / 4)),
             progress (Fin (1 / 2))])"
  by (simp add: transfer_defs boot_delta_ok_sel open_android_2048 verify_android_2048)

lemma downloadAndVerify_rootfs_delta_ok:
  "downloadAndVerify stub_digest DownloadRootfsState SquashFsType rootfs_delta_ok
     ''rootfs.img'' ''rootfs/1.vcdiff'' ''cfcf''
   = (True, [Get DeltaRequest ''rootfs/1.vcdiff'', progress (Fin (5 / 8)),
             progress (Fin (3 / 4)), progress (Fin 1)])"
  by (simp add: transfer_defs rootfs_delta_ok_sel open_squashfs_4096 verify_squashfs_4096_full)



lemma example_updater_sel:
  "version (availableUpdate example_updater) = 2"
  "bootimgUrl (availableUpdate example_updater) = ''boot.img''"
  "bootimgDeltaUrl (availableUpdate example_updater) = ''boot/1.vcdiff''"
  "bootimgSha512 (availableUpdate example_updater) = ''cf2a''"
  "rootfsUrl (availableUpdate example_updater) = ''rootfs.img''"
  "rootfsDeltaUrl (availableUpdate example_updater) = ''rootfs/1.vcdiff''"
  "rootfsSha512 (availableUpdate example_updater) = ''cfcf''"
  by (simp_all add: example_updater_def example_update_def)

lemma run_env_sel:
  "bootEnv run_both_ok = boot_delta_ok" "rootfsEnv run_both_ok = rootfs_delta_ok"
  "bootEnv run_rootfs_fails = boot_delta_ok" "rootfsEnv run_rootfs_fails = rootfs_both_mismatch"
  "bootEnv run_boot_fallback = boot_delta_mismatch" "rootfsEnv run_boot_fallback = rootfs_delta_ok"
  by (simp_all add: run_both_ok_def run_rootfs_fails_def run_boot_fallback_def)



section \<open>Progress\<close>

subsection \<open>One signal\<close>


lemma emitProgress_other:
  "emitProgress st isDownload PInf = []"
  "emitProgress st isDownload NInf = []"
  "emitProgress st isDownload NaN = [NaN]"
  by (simp_all add: emitProgress_def)




subsection \<open>The transfers\<close>






subsection \<open>Verification\<close>




subsection \<open>One image kind\<close>















subsection \<open>The whole run\<close>







text \<open>
  A \<open>downloadProgress(0, 0)\<close> signal passes the range check of \<open>emitProgress\<close>, since
  no comparison with a NaN holds, and a NaN is emitted.
\<close>

lemma emitProgress_nan: "emitProgress st True (fdiv 0 0) = [NaN]"
  by (simp add: fdiv_def emitProgress_other)






section \<open>Checking for an update\<close>

lemma check_state: "state (fst (check u updateChannel)) = StateDownloadJson"
  by (simp add: check_def Let_def)

lemma check_keeps: "availableUpdate (fst (check u updateChannel)) = availableUpdate u"
  "machine (fst (check u updateChannel)) = machine u"
  by (simp_all add: check_def Let_def)

lemma check_events: "checkFailed reason \<notin> set (snd (check u updateChannel))"
  by (simp add: check_def Let_def)

text \<open>
  Claim C5 does not hold of the code. When the manifest parses and both temporary files
  can be written but \<open>gpg\<close> does not accept the signature, the check emits no
  \<open>checkFailed\<close>: the branch zeroes \<open>availableUpdate\<close>, logs a warning and leaves.
\<close>

theorem rejected_signature_emits_no_checkFailed:
  assumes "tmpFileOpens manifestReply" "fromJson manifestReply = JsonObject json"
    and "tmpFileOpens signatureReply" "\<not> verifySignature (gpg signatureReply)"
  shows "\<forall>reason. checkFailed reason
           \<notin> set (snd (run_check u updateChannel manifestReply signatureReply))"
  using assms
  by (simp add: run_check_def check_def downloadFinished_def Let_def split_beta)

lemma manifest_reply_sel:
  "tmpFileOpens manifest_reply"
  "fromJson manifest_reply = JsonObject
        [(''build_id'', ''7''), (''rootfs'', ''rootfs.img''), (''rootfs_sha512'', ''cfcf''),
         (''bootimg'', ''boot.img''), (''bootimg_sha512'', ''cf2a''),
         (''rootfs_deltas'', ''rootfs/''), (''bootimg_deltas'', ''boot/''),
         (''signature'', ''update.sig'')]"
  by (simp_all add: manifest_reply_def)

lemma signature_reply_sel:
  "tmpFileOpens rejected_signature_reply" "gpg rejected_signature_reply = ExitCode 1"
  "\<not> tmpFileOpens unwritable_signature_reply"
  "tmpFileOpens garbage_reply" "fromJson garbage_reply = JsonParseError ''illegal value''"
  by (simp_all add: rejected_signature_reply_def unwritable_signature_reply_def
      garbage_reply_def)

lemma fresh_updater_sel:
  "osVersion (machine fresh_updater) = 1" "model (machine fresh_updater) = NEPOS1"
  "availableUpdate fresh_updater = zeroed"
  by (simp_all add: fresh_updater_def)

text \<open>
  The theorem at the check of a fresh updater that receives the manifest and a signature
  for which \<open>gpg\<close> exits with status 1: the only events are the two requests.
\<close>

theorem rejected_signature_emits_no_checkFailed_witness:
  "\<not> verifySignature (gpg rejected_signature_reply)
   \<and> (\<forall>reason. checkFailed reason
         \<notin> set (snd (run_check fresh_updater ''stable'' manifest_reply rejected_signature_reply)))
   \<and> snd (run_check fresh_updater ''stable'' manifest_reply rejected_signature_reply)
       = [NetworkGet ManifestRequest ''https://os.nepos.io/updates/nepos1/stable.json'',
          NetworkGet SignatureRequest ''update.sig'']"
proof -
  have g: "\<not> verifySignature (gpg rejected_signature_reply)"
    by (simp add: signature_reply_sel verifySignature_def)
  have e: "snd (run_check fresh_updater ''stable'' manifest_reply rejected_signature_reply)
       = [NetworkGet ManifestRequest ''https://os.nepos.io/updates/nepos1/stable.json'',
          NetworkGet SignatureRequest ''update.sig'']"
    by (simp add: run_check_def check_def downloadFinished_def Let_def split_beta
        manifest_reply_sel signature_reply_sel fresh_updater_sel verifySignature_def
        json_toString_def)
  show ?thesis
    using rejected_signature_emits_no_checkFailed [OF manifest_reply_sel
        signature_reply_sel(1) g, of fresh_updater "''stable''"] g e
    by simp
qed

text \<open>
  Claim C6 does not hold of the code. Only the branch for a rejected signature zeroes
  \<open>availableUpdate\<close>. A check that fails because the manifest does not parse, or because
  the temporary file of the manifest cannot be opened, leaves the record as it was
  before the check; a check that fails because the temporary file of the signature
  cannot be opened leaves in it the fields of the manifest that was never verified.
\<close>

theorem failed_check_leaves_availableUpdate:
  "(tmpFileOpens manifestReply \<and> fromJson manifestReply = JsonParseError errorString
      \<longrightarrow> availableUpdate (fst (run_check u updateChannel manifestReply signatureReply))
            = availableUpdate u)
   \<and> (\<not> tmpFileOpens manifestReply
      \<longrightarrow> availableUpdate (fst (run_check u updateChannel manifestReply signatureReply))
            = availableUpdate u)
   \<and> (tmpFileOpens manifestReply \<and> fromJson manifestReply = JsonObject json
        \<and> \<not> tmpFileOpens signatureReply
      \<longrightarrow> version (availableUpdate (fst (run_check u updateChannel manifestReply signatureReply)))
            = toULong (json_toString json ''build_id''))"
  by (simp add: run_check_def check_def downloadFinished_def Let_def split_beta)

lemma toULong_7: "toULong ''7'' = 7"
  by (simp add: toULong_def isDigit_def)

lemma QString_number_1: "QString_number 1 = ''1''" "QString_number (Suc 0) = ''1''"
  by (subst QString_number.simps, simp add: digit_char_def)+

lemma unverified_update_pending:
  "availableUpdate (fst (run_check fresh_updater ''stable'' manifest_reply
      unwritable_signature_reply))
   = \<lparr>version = 7, rootfsUrl = ''rootfs.img'', rootfsSha512 = ''cfcf'',
      bootimgUrl = ''boot.img'', bootimgSha512 = ''cf2a'',
      rootfsDeltaUrl = ''rootfs/1.vcdiff'', bootimgDeltaUrl = ''boot/1.vcdiff''\<rparr>"
  by (simp add: run_check_def check_def downloadFinished_def Let_def split_beta
      manifest_reply_sel signature_reply_sel fresh_updater_sel json_toString_def toULong_7
      QString_number_1)

text \<open>
  The theorem at an updater with a pending update that receives a body that does not
  parse, and at a fresh updater that receives the manifest and cannot write the
  signature: after the failed check, \<open>version\<close> is 2 in the first case and 7 in the
  second, where a following \<open>install\<close> runs the update and switches the boot selector.
\<close>

theorem failed_check_leaves_availableUpdate_witness:
  "version (availableUpdate (fst (run_check example_updater ''stable'' garbage_reply
      rejected_signature_reply))) = 2
   \<and> (\<exists>reason. checkFailed reason \<in> set (snd (run_check example_updater ''stable'' garbage_reply
      rejected_signature_reply)))
   \<and> version (availableUpdate (fst (run_check fresh_updater ''stable'' manifest_reply
      unwritable_signature_reply))) = 7
   \<and> setAltBootConfig \<in> set (install stub_digest (fst (run_check fresh_updater ''stable''
      manifest_reply unwritable_signature_reply)) run_both_ok)"
proof -
  have a: "version (availableUpdate (fst (run_check example_updater ''stable'' garbage_reply
      rejected_signature_reply))) = 2"
    using failed_check_leaves_availableUpdate [of garbage_reply "''illegal value''"
        example_updater "''stable''" rejected_signature_reply]
    by (simp add: signature_reply_sel example_updater_sel)
  have b: "\<exists>reason. checkFailed reason \<in> set (snd (run_check example_updater ''stable''
      garbage_reply rejected_signature_reply))"
    by (simp add: run_check_def check_def downloadFinished_def Let_def split_beta
        signature_reply_sel)
  have c: "version (availableUpdate (fst (run_check fresh_updater ''stable'' manifest_reply
      unwritable_signature_reply))) = 7"
    using failed_check_leaves_availableUpdate [where manifestReply = manifest_reply
        and u = fresh_updater and updateChannel = "''stable''"
        and signatureReply = unwritable_signature_reply]
    by (simp add: manifest_reply_sel signature_reply_sel json_toString_def toULong_7)
  have d: "setAltBootConfig \<in> set (install stub_digest (fst (run_check fresh_updater ''stable''
      manifest_reply unwritable_signature_reply)) run_both_ok)"
    by (simp add: install_def run_def unverified_update_pending run_env_sel
        downloadAndVerify_boot_delta_ok downloadAndVerify_rootfs_delta_ok)
  from a b c d show ?thesis
    by simp
qed

section \<open>UpdateWriter\<close>

lemma sint_pos_plus:
  assumes "a + unat (n :: u64) < 2 ^ 63"
  shows "sint (of_nat a + n) = int (a + unat n)"
proof -
  define m where "m = a + unat n"
  have w: "of_nat a + n = (of_nat m :: u64)"
    by (simp add: m_def)
  have m63: "m < 2 ^ 63"
    using assms by (simp add: m_def)
  then have "m < 2 ^ LENGTH(64)"
    by simp
  then have "unat (of_nat m :: u64) = m"
    by (simp only: unat_of_nat mod_less)
  then have u: "uint (of_nat m :: u64) = int m"
    by (metis uint_nat)
  have "sint (of_nat m :: u64) = signed_take_bit 63 (uint (of_nat m :: u64))"
    by (simp add: sint_uint)
  also have "\<dots> = int m"
    unfolding u using m63 by (intro signed_take_bit_int_eq_self) simp_all
  finally show ?thesis
    by (simp only: w m_def)
qed

lemma QFile_resize_nat:
  assumes "pos f \<le> m"
  shows "QFile_resize f (int m) =
           (if blockDevice f then f
            else f\<lparr>bytes := take m (bytes f) @ replicate (m - length (bytes f)) 0\<rparr>)"
  using assms by (simp add: QFile_resize_def Let_def)

lemma ReserveAdditionalBytes_eq:
  assumes "pos f + unat res_arg < 2 ^ 63"
  shows "ReserveAdditionalBytes f res_arg =
           (if blockDevice f then f
            else f\<lparr>bytes := take (pos f + unat res_arg) (bytes f)
                     @ replicate (pos f + unat res_arg - length (bytes f)) 0\<rparr>)"
proof -
  have "ReserveAdditionalBytes f res_arg = QFile_resize f (int (pos f + unat res_arg))"
    by (simp only: ReserveAdditionalBytes_def sint_pos_plus [OF assms])
  also have "\<dots> = (if blockDevice f then f
            else f\<lparr>bytes := take (pos f + unat res_arg) (bytes f)
                     @ replicate (pos f + unat res_arg - length (bytes f)) 0\<rparr>)"
    by (rule QFile_resize_nat) simp
  finally show ?thesis .
qed

text \<open>
  Claim C10, as the code has it. For an open writer and a reservation that stays below
  \<open>2^63\<close>, \<open>ReserveAdditionalBytes\<close> leaves the write position, and so \<open>size()\<close>,
  unchanged. On a regular file the length becomes the write position plus \<open>n\<close>; on a block
  device the \<open>resize\<close> fails and the bytes stay as they are. In both cases an \<open>append\<close>
  after the reservation ends at the same position and leaves the same bytes up to that
  position as an \<open>append\<close> without the reservation.
\<close>

theorem ReserveAdditionalBytes_keeps_position:
  assumes "opened f" "pos f + unat res_arg < 2 ^ 63"
  shows "size_writer (ReserveAdditionalBytes f res_arg) = size_writer f
       \<and> (if blockDevice f then bytes (ReserveAdditionalBytes f res_arg) = bytes f
          else length (bytes (ReserveAdditionalBytes f res_arg)) = pos f + unat res_arg)
       \<and> size_writer (append (ReserveAdditionalBytes f res_arg) s) = size_writer (append f s)
       \<and> take (size_writer (append f s)) (bytes (append (ReserveAdditionalBytes f res_arg) s))
           = take (size_writer (append f s)) (bytes (append f s))"
proof (cases "blockDevice f")
  case True
  then show ?thesis
    by (simp add: ReserveAdditionalBytes_eq [OF assms(2)])
next
  case False
  let ?n = "pos f + unat res_arg"
  let ?old = "bytes f @ replicate (pos f - length (bytes f)) 0"
  let ?new = "take ?n (bytes f) @ replicate (?n - length (bytes f)) 0"
  have l: "length ?new = ?n"
    by simp
  have p: "take (pos f) ?new = take (pos f) ?old"
    by (cases "pos f \<le> length (bytes f)") (simp_all add: min_def)
  have r: "ReserveAdditionalBytes f res_arg = f\<lparr>bytes := ?new\<rparr>"
    using False by (simp add: ReserveAdditionalBytes_eq [OF assms(2)])
  have a1: "bytes (append f s) = take (pos f) ?old @ s @ drop (pos f + length s) ?old"
    and a2: "pos (append f s) = pos f + length s"
    using assms(1) False by (simp_all add: append_def QFile_write_def Let_def)
  have "?new @ replicate (pos f - length ?new) 0 = ?new"
    by (simp only: l) simp
  then have b1: "bytes (append (f\<lparr>bytes := ?new\<rparr>) s)
        = take (pos f) ?new @ s @ drop (pos f + length s) ?new"
    and b2: "pos (append (f\<lparr>bytes := ?new\<rparr>) s) = pos f + length s"
    using assms(1) False by (simp_all add: append_def QFile_write_def Let_def)
  have lp: "length (take (pos f) ?old) = pos f"
    by simp
  have t: "take (pos f + length s) (take (pos f) ?old @ s @ xs) = take (pos f) ?old @ s" for xs
    using lp by (simp add: take_append)
  show ?thesis
    using False l
    by (simp add: r size_writer_def a2 b2 a1 b1 p t del: take_append)
qed

text \<open>The theorem at the writer on a regular file and at the writer on a block device.\<close>

theorem ReserveAdditionalBytes_keeps_position_witness:
  "opened writer_on_file \<and> pos writer_on_file + unat (100 :: u64) < 2 ^ 63
   \<and> size_writer (ReserveAdditionalBytes writer_on_file 100) = 4
   \<and> length (bytes (ReserveAdditionalBytes writer_on_file 100)) = 104
   \<and> size_writer (append (ReserveAdditionalBytes writer_on_file 100) [1, 2]) = 6
   \<and> take 6 (bytes (append (ReserveAdditionalBytes writer_on_file 100) [1, 2]))
       = replicate 4 0 @ [1, 2]
   \<and> opened writer_on_device
   \<and> size_writer (ReserveAdditionalBytes writer_on_device 100) = 4
   \<and> bytes (ReserveAdditionalBytes writer_on_device 100) = replicate 8 0"
proof -
  have f: "opened writer_on_file" "pos writer_on_file + unat (100 :: u64) < 2 ^ 63"
    by (simp_all add: writer_on_file_def)
  have d: "opened writer_on_device" "pos writer_on_device + unat (100 :: u64) < 2 ^ 63"
    by (simp_all add: writer_on_device_def)
  have s: "size_writer writer_on_file = 4" "\<not> blockDevice writer_on_file"
    "pos writer_on_file = 4" "size_writer writer_on_device = 4" "blockDevice writer_on_device"
    "bytes writer_on_device = replicate 8 0"
    by (simp_all add: writer_on_file_def writer_on_device_def size_writer_def)
  have a: "size_writer (append writer_on_file [1, 2]) = 6"
    "take 6 (bytes (append writer_on_file [1, 2])) = replicate 4 0 @ [1, 2]"
    by (simp_all add: writer_on_file_def size_writer_def append_def QFile_write_def Let_def)
  show ?thesis
    using ReserveAdditionalBytes_keeps_position [OF f, of "[1, 2]"]
      ReserveAdditionalBytes_keeps_position [OF d, of "[]"] f d s a
    by simp
qed

text \<open>
  Claim C10 as the specification states it fails for a writer on a block device: the
  device keeps its eight bytes, where the claim has a length of 104.
\<close>

theorem ReserveAdditionalBytes_device_counterexample:
  "opened writer_on_device
   \<and> length (bytes (ReserveAdditionalBytes writer_on_device 100))
       \<noteq> pos writer_on_device + 100"
  by (simp add: writer_on_device_def ReserveAdditionalBytes_def QFile_resize_def Let_def)

end
